theory Spec2Isabelle
  imports Complex_Main "HOL-Library.AList" "HOL-Library.Multiset"
begin

section \<open>Shared data: entries, exceptions, the file system and the clock\<close>

text \<open>
  The repository holds two generations of the repost detector.
  \<^item> \<open>UrlStore\<close> (src/urlStore.js) keeps one flat array of entries and is driven by
    \<open>UrlTracker.handleMessage\<close>/\<open>processUrl\<close> (src/unnamed/part_002, first class).
  \<^item> \<open>UrlStorage\<close> (src/unnamed/part_002, second class) keeps a \<open>Map\<close> from channel id to an
    array of entries and is driven by \<open>UrlTracker.handleUrlMessage\<close> (src/urlTracker.js).

  Two earlier versions of \<open>handleUrlMessage\<close> (src/unnamed/part_000 and part_001, alike but
  for the wording of their notices) identify the poster by \<open>author\<close> tag instead of \<open>userId\<close>.

  Both store plain JavaScript objects. One record covers every shape the code builds; a
  field the code leaves \<open>undefined\<close> (or sets to \<open>null\<close>) is \<open>None\<close>. A timestamp is the
  instant in milliseconds since the epoch: \<open>Date.now()\<close> in \<open>UrlStorage\<close>, and in \<open>UrlStore\<close>
  the ISO text of \<open>new Date().toISOString()\<close>, which \<open>new Date(...)\<close> reads back to the same
  millisecond. Strings are sequences of code units below 256.
\<close>

record url_entry =
  url :: string
  userId :: "string option"
  channelId :: "string option"
  threadId :: "string option"
  messageId :: "string option"
  messageUrl :: "string option"
  author :: "string option"
  timestamp :: int

text \<open>The exceptions that the modelled code can see.\<close>

datatype exn =
    ENOENT            \<comment> \<open>\<open>readFile\<close>: the file does not exist\<close>
  | EACCES            \<comment> \<open>\<open>readFile\<close>: any other read failure\<close>
  | SyntaxError       \<comment> \<open>\<open>JSON.parse\<close> rejects the text\<close>
  | EIO               \<comment> \<open>\<open>writeFile\<close> rejects\<close>
  | TypeError         \<comment> \<open>a property read on \<open>null\<close> or \<open>undefined\<close>, a call of what is not a function\<close>
  | ReferenceError    \<comment> \<open>an identifier that is not defined\<close>
  | DiscordAPIError   \<comment> \<open>a Discord call (\<open>reply\<close>, \<open>delete\<close>, \<open>fetch\<close>) rejects\<close>

text \<open>
  The backing file: absent, unreadable, readable but not JSON, or holding the JSON image
  of a value. \<open>JSON.parse (JSON.stringify v)\<close> on the arrays of entries that the stores
  write rebuilds objects with the same field values (a dropped \<open>undefined\<close> field reads as
  \<open>undefined\<close> again), so the file content is kept as the value itself.
\<close>

datatype 'a fs_file = NoFile | Unreadable | Garbage | Parsed 'a

text \<open>
  The world outside the process: the file, the outcome of the \<open>k\<close>-th \<open>writeFile\<close> call,
  the \<open>k\<close>-th reading of the system clock and the outcome of the \<open>k\<close>-th Discord call that
  changes something (\<open>reply\<close>, \<open>delete\<close>), each with the number of calls made so far.
  The clock readings are those that the stores and trackers make themselves (\<open>new Date()\<close>,
  \<open>Date.now()\<close>); what a library reads on its own account (\<open>setTimestamp\<close>, the logger) is
  not among them.
\<close>

record 'a world =
  disk :: "'a fs_file"
  write_ok :: "nat \<Rightarrow> bool"
  writes :: nat
  clock :: "nat \<Rightarrow> int"
  clock_reads :: nat
  discord_ok :: "nat \<Rightarrow> bool"
  discord_calls :: nat

definition readFile :: "('a, 'b) world_scheme \<Rightarrow> exn + 'a" where
  "readFile w =
     (case disk w of
        NoFile \<Rightarrow> Inl ENOENT
      | Unreadable \<Rightarrow> Inl EACCES
      | Garbage \<Rightarrow> Inl SyntaxError
      | Parsed v \<Rightarrow> Inr v)"

text \<open>A rejected write is taken to leave the previous file content in place.\<close>

definition writeFile :: "'a \<Rightarrow> ('a, 'b) world_scheme \<Rightarrow> bool \<times> ('a, 'b) world_scheme" where
  "writeFile v w =
     (if write_ok w (writes w)
      then (True, w\<lparr>disk := Parsed v, writes := Suc (writes w)\<rparr>)
      else (False, w\<lparr>writes := Suc (writes w)\<rparr>))"

definition Date_now :: "('a, 'b) world_scheme \<Rightarrow> int \<times> ('a, 'b) world_scheme" where
  "Date_now w = (clock w (clock_reads w), w\<lparr>clock_reads := Suc (clock_reads w)\<rparr>)"

definition discord_call :: "('a, 'b) world_scheme \<Rightarrow> bool \<times> ('a, 'b) world_scheme" where
  "discord_call w = (discord_ok w (discord_calls w), w\<lparr>discord_calls := Suc (discord_calls w)\<rparr>)"

text \<open>\<open>xs[0]\<close>: the first element, \<open>undefined\<close> on an empty array.\<close>

definition first_elem :: "'a list \<Rightarrow> 'a option" where
  "first_elem xs = (case xs of [] \<Rightarrow> None | x # _ \<Rightarrow> Some x)"

section \<open>UrlStore (src/urlStore.js)\<close>

text \<open>
  \<open>this.data\<close> is whatever \<open>JSON.parse\<close> made of the file: an object whose \<open>urls\<close> is an array
  (\<open>Urls\<close>, with the entries of the array), or any other value (\<open>NoUrls\<close>: \<open>null\<close>, \<open>{}\<close>,
  a number, an object whose \<open>urls\<close> is not an array). On a value of the second kind both
  \<open>this.data.urls.filter(...)\<close> and \<open>this.data.urls.push(...)\<close> throw a \<open>TypeError\<close>, and
  \<open>JSON.stringify\<close> writes it back as a value of the same kind. The elements of a \<open>urls\<close>
  array are taken to be entries as \<open>addUrl\<close> builds them.
\<close>

datatype store_data = Urls "url_entry list" | NoUrls

record UrlStore =
  data :: store_data
  initialized :: bool

type_synonym store_world = "store_data world"

text \<open>The constructor: \<open>data = { urls: [] }\<close>, \<open>initialized = false\<close>.\<close>

definition UrlStore_new :: UrlStore where
  "UrlStore_new = \<lparr>data = Urls [], initialized = False\<rparr>"

text \<open>
  Every operation returns its result (\<open>Inl\<close> a thrown exception) together with the store and
  the world as they are when it returns or throws.
\<close>

definition loadData :: "UrlStore \<Rightarrow> store_world \<Rightarrow> (exn + unit) \<times> UrlStore \<times> store_world" where
  "loadData st w =
     (case readFile w of
        Inl e \<Rightarrow> (Inl e, st, w)
      | Inr d \<Rightarrow> (Inr (), st\<lparr>data := d\<rparr>, w))"

definition saveData :: "UrlStore \<Rightarrow> store_world \<Rightarrow> (exn + unit) \<times> UrlStore \<times> store_world" where
  "saveData st w =
     (case writeFile (data st) w of
        (True, w') \<Rightarrow> (Inr (), st, w')
      | (False, w') \<Rightarrow> (Inl EIO, st, w'))"

definition UrlStore_init :: "UrlStore \<Rightarrow> store_world \<Rightarrow> (exn + unit) \<times> UrlStore \<times> store_world" where
  "UrlStore_init st w =
     (case loadData st w of
        (Inr _, st1, w1) \<Rightarrow> (Inr (), st1\<lparr>initialized := True\<rparr>, w1)
      | (Inl e, st1, w1) \<Rightarrow>
          if e = ENOENT
          then (case saveData st1 w1 of
                  (Inr _, st2, w2) \<Rightarrow> (Inr (), st2\<lparr>initialized := True\<rparr>, w2)
                | (Inl e2, st2, w2) \<Rightarrow> (Inl e2, st2, w2))
          else (Inl e, st1, w1))"

text \<open>\<open>if (!this.initialized) await this.init();\<close>\<close>

definition ensure_init :: "UrlStore \<Rightarrow> store_world \<Rightarrow> (exn + unit) \<times> UrlStore \<times> store_world" where
  "ensure_init st w = (if initialized st then (Inr (), st, w) else UrlStore_init st w)"

definition UrlStore_addUrl ::
  "UrlStore \<Rightarrow> store_world \<Rightarrow> string \<Rightarrow> string \<Rightarrow> string \<Rightarrow> string option
     \<Rightarrow> (exn + url_entry) \<times> UrlStore \<times> store_world" where
  "UrlStore_addUrl st w u uid cid tid =
     (case ensure_init st w of
        (Inl e, st1, w1) \<Rightarrow> (Inl e, st1, w1)
      | (Inr _, st1, w1) \<Rightarrow>
          (case Date_now w1 of
             (t, w2) \<Rightarrow>
               let urlEntry = \<lparr>url = u, userId = Some uid, channelId = Some cid, threadId = tid,
                                messageId = None, messageUrl = None, author = None, timestamp = t\<rparr>
               in (case data st1 of
                     NoUrls \<Rightarrow> (Inl TypeError, st1, w2)
                   | Urls es \<Rightarrow>
                       (case saveData (st1\<lparr>data := Urls (es @ [urlEntry])\<rparr>) w2 of
                          (Inl e, st3, w3) \<Rightarrow> (Inl e, st3, w3)
                        | (Inr _, st3, w3) \<Rightarrow> (Inr urlEntry, st3, w3)))))"

text \<open>
  \<open>filter(entry => entry.url === url).sort((a, b) => new Date(a.timestamp) - new Date(b.timestamp))[0]\<close>.
  \<open>Array.prototype.sort\<close> is stable, as is \<^const>\<open>sort_key\<close>; \<open>filter\<close> copies, so the stored
  array keeps its order.
\<close>

definition earliest :: "string \<Rightarrow> url_entry list \<Rightarrow> url_entry option" where
  "earliest u es = first_elem (sort_key timestamp (filter (\<lambda>entry. url entry = u) es))"

definition UrlStore_findUrlHistory ::
  "UrlStore \<Rightarrow> store_world \<Rightarrow> string \<Rightarrow> (exn + url_entry option) \<times> UrlStore \<times> store_world" where
  "UrlStore_findUrlHistory st w u =
     (case ensure_init st w of
        (Inl e, st1, w1) \<Rightarrow> (Inl e, st1, w1)
      | (Inr _, st1, w1) \<Rightarrow>
          (case data st1 of
             NoUrls \<Rightarrow> (Inl TypeError, st1, w1)
           | Urls es \<Rightarrow> (Inr (earliest u es), st1, w1)))"

section \<open>UrlTracker over UrlStore (src/unnamed/part_002)\<close>

subsection \<open>The URL pattern\<close>

text \<open>
  \<open>/https?:\/\/(www\.)?[-a-zA-Z0-9@:%._\+~#=]{1,256}\.[a-zA-Z0-9()]{1,6}\b([-a-zA-Z0-9()@:%_\+.~#?&//=]*)/gi\<close>,
  matched the way a backtracking engine does: every quantifier is greedy and gives back
  one repetition at a time.
\<close>

definition alnum :: "char \<Rightarrow> bool" where
  "alnum c \<longleftrightarrow>
     c \<in> set ''abcdefghijklmnopqrstuvwxyzABCDEFGHIJKLMNOPQRSTUVWXYZ0123456789''"

definition host_char :: "char \<Rightarrow> bool" where
  "host_char c \<longleftrightarrow> alnum c \<or> c \<in> set ''-@:%._+~#=''"

definition tld_char :: "char \<Rightarrow> bool" where
  "tld_char c \<longleftrightarrow> alnum c \<or> c \<in> set ''()''"

definition path_char :: "char \<Rightarrow> bool" where
  "path_char c \<longleftrightarrow> alnum c \<or> c \<in> set ''-()@:%_+.~#?&/=''"

text \<open>\<open>\w\<close>, the class that \<open>\b\<close> looks at.\<close>

definition word_char :: "char \<Rightarrow> bool" where
  "word_char c \<longleftrightarrow> alnum c \<or> c = CHR ''_''"

definition toLower :: "char \<Rightarrow> char" where
  "toLower c =
     (case map_of (zip ''ABCDEFGHIJKLMNOPQRSTUVWXYZ'' ''abcdefghijklmnopqrstuvwxyz'') c of
        None \<Rightarrow> c
      | Some d \<Rightarrow> d)"

text \<open>Strip a literal (given in lower case) from the front, ignoring case (flag \<open>i\<close>).\<close>

fun strip_ci :: "string \<Rightarrow> string \<Rightarrow> string option" where
  "strip_ci [] s = Some s"
| "strip_ci (p # ps) [] = None"
| "strip_ci (p # ps) (c # cs) = (if toLower c = p then strip_ci ps cs else None)"

text \<open>\<open>\b\<close> after the first \<open>k\<close> characters of \<open>r\<close> (\<open>k\<close> is at least 1 where it is used).\<close>

definition word_boundary :: "string \<Rightarrow> nat \<Rightarrow> bool" where
  "word_boundary r k \<longleftrightarrow> word_char (r ! (k - 1)) \<noteq> (k < length r \<and> word_char (r ! k))"

text \<open>
  \<open>[a-zA-Z0-9()]{1,6}\b(...*)\<close> on the text \<open>r\<close> after the dot, trying \<open>k\<close> characters, then
  \<open>k - 1\<close>, down to one; the result is the number of characters matched.
\<close>

fun tld_try :: "string \<Rightarrow> nat \<Rightarrow> nat option" where
  "tld_try r 0 = None"
| "tld_try r (Suc k) =
     (if word_boundary r (Suc k)
      then Some (Suc k + length (takeWhile path_char (drop (Suc k) r)))
      else tld_try r k)"

text \<open>\<open>[-a-zA-Z0-9@:%._\+~#=]{1,256}\.\<close> and the rest, trying \<open>a\<close> characters down to one.\<close>

fun host_try :: "string \<Rightarrow> nat \<Rightarrow> nat option" where
  "host_try r 0 = None"
| "host_try r (Suc a) =
     (case (case drop (Suc a) r of
              [] \<Rightarrow> None
            | c # r' \<Rightarrow>
                if c = CHR ''.''
                then tld_try r' (min 6 (length (takeWhile tld_char r')))
                else None) of
        Some n \<Rightarrow> Some (Suc a + 1 + n)
      | None \<Rightarrow> host_try r a)"

definition after_scheme :: "string \<Rightarrow> nat option" where
  "after_scheme r = host_try r (min 256 (length (takeWhile host_char r)))"

text \<open>The length of the match that starts at the head of \<open>s\<close>, if there is one.\<close>

definition match_at :: "string \<Rightarrow> nat option" where
  "match_at s =
     (case strip_ci ''http'' s of
        None \<Rightarrow> None
      | Some r1 \<Rightarrow>
          (case (case strip_ci ''s'' r1 of Some r \<Rightarrow> (r, 5) | None \<Rightarrow> (r1, 4)) of
             (r2, n2) \<Rightarrow>
               (case strip_ci ''://'' r2 of
                  None \<Rightarrow> None
                | Some r3 \<Rightarrow>
                    (case (case strip_ci ''www.'' r3 of
                             Some r4 \<Rightarrow> map_option (\<lambda>n. 4 + n) (after_scheme r4)
                           | None \<Rightarrow> None) of
                       Some n \<Rightarrow> Some (n2 + 3 + n)
                     | None \<Rightarrow> map_option (\<lambda>n. n2 + 3 + n) (after_scheme r3)))))"

text \<open>
  \<open>content.match(this.urlRegex)\<close> with flag \<open>g\<close>: all matches from left to right, each search
  resuming where the previous match ended. \<open>null\<close> (no match) is the empty list.
\<close>

fun match_urlRegex :: "string \<Rightarrow> string list" where
  "match_urlRegex [] = []"
| "match_urlRegex (c # cs) =
     (case match_at (c # cs) of
        None \<Rightarrow> match_urlRegex cs
      | Some n \<Rightarrow> take n (c # cs) # match_urlRegex (drop (n - 1) cs))"

subsection \<open>Messages and configuration\<close>

text \<open>
  The fields of a Discord message that the trackers read. \<open>msg_channelId\<close> is both
  \<open>message.channelId\<close> and \<open>message.channel.id\<close>; \<open>parentId\<close> is \<open>null\<close> outside a thread;
  \<open>guild_id\<close> is \<open>None\<close> when \<open>message.guild\<close> is \<open>null\<close>.
\<close>

record message =
  msg_id :: string
  author_id :: string
  author_tag :: string
  author_bot :: bool
  content :: string
  msg_channelId :: string
  parentId :: "string option"
  isThread :: bool
  deletable :: bool
  guild_id :: "string option"

text \<open>
  \<open>process.env\<close>: \<open>MAIN_CHANNEL_ID\<close> may be unset; \<open>URL_REPOST_THRESHOLD_HOURS\<close> is kept as the
  value of \<open>parseInt(process.env.URL_REPOST_THRESHOLD_HOURS)\<close>, \<open>None\<close> standing for \<open>NaN\<close>.
\<close>

record env =
  MAIN_CHANNEL_ID :: "string option"
  URL_REPOST_THRESHOLD_HOURS :: "int option"

subsection \<open>processUrl and handleMessage\<close>

text \<open>
  \<open>(now - postDate) / (1000 * 60 * 60)\<close>. The quotient is kept exact; the double that
  JavaScript computes compares with a whole number of hours below \<open>2^31\<close> the same way.
\<close>

definition getPostAgeHours :: "int \<Rightarrow> store_world \<Rightarrow> rat \<times> store_world" where
  "getPostAgeHours ts w =
     (case Date_now w of (now, w') \<Rightarrow> (of_int (now - ts) / (1000 * 60 * 60), w'))"

text \<open>\<open>postAge > thresholdHours\<close>; every comparison with \<open>NaN\<close> is false.\<close>

definition above_threshold :: "rat \<Rightarrow> int option \<Rightarrow> bool" where
  "above_threshold postAge thresholdHours =
     (case thresholdHours of None \<Rightarrow> False | Some h \<Rightarrow> postAge > of_int h)"

text \<open>What \<open>createRepostEmbed\<close> computes from its arguments.\<close>

record embed =
  isSameUser :: bool
  posted_hours_ago :: int
  time_remaining :: "int option"

definition createRepostEmbed :: "env \<Rightarrow> rat \<Rightarrow> bool \<Rightarrow> embed" where
  "createRepostEmbed ev postAge same =
     \<lparr>isSameUser = same,
      posted_hours_ago = \<lfloor>postAge\<rfloor>,
      time_remaining = map_option (\<lambda>h. \<lceil>of_int h - postAge\<rceil>) (URL_REPOST_THRESHOLD_HOURS ev)\<rparr>"

text \<open>
  \<open>processUrl\<close> returns nothing; the model returns the branch it took: the URL was stored
  as a first post, stored as an allowed repost, answered with the repost notice (and the
  message deleted or not), or an exception reached the \<open>catch\<close> and was logged.
\<close>

datatype outcome =
    FirstPost
  | RepostAllowed
  | RepostBlocked embed bool
  | Errored exn

definition thread_of :: "message \<Rightarrow> string option" where
  "thread_of m = (if isThread m then Some (msg_channelId m) else None)"

definition processUrl ::
  "env \<Rightarrow> UrlStore \<Rightarrow> store_world \<Rightarrow> string \<Rightarrow> message \<Rightarrow> outcome \<times> UrlStore \<times> store_world" where
  "processUrl ev st w u m =
     (case UrlStore_findUrlHistory st w u of
        (Inl e, st1, w1) \<Rightarrow> (Errored e, st1, w1)
      | (Inr (Some urlHistory), st1, w1) \<Rightarrow>
          (case getPostAgeHours (timestamp urlHistory) w1 of
             (postAge, w2) \<Rightarrow>
               if above_threshold postAge (URL_REPOST_THRESHOLD_HOURS ev)
               then (case UrlStore_addUrl st1 w2 u (author_id m) (msg_channelId m) (thread_of m) of
                       (Inl e, st3, w3) \<Rightarrow> (Errored e, st3, w3)
                     | (Inr _, st3, w3) \<Rightarrow> (RepostAllowed, st3, w3))
               else
                 let same = (userId urlHistory = Some (author_id m));
                     embed = createRepostEmbed ev postAge same
                 in (case discord_call w2 of
                       (False, w3) \<Rightarrow> (Errored DiscordAPIError, st1, w3)
                     | (True, w3) \<Rightarrow>
                         if deletable m
                         then (case discord_call w3 of
                                 (False, w4) \<Rightarrow> (Errored DiscordAPIError, st1, w4)
                               | (True, w4) \<Rightarrow> (RepostBlocked embed True, st1, w4))
                         else (RepostBlocked embed False, st1, w3)))
      | (Inr None, st1, w1) \<Rightarrow>
          (case UrlStore_addUrl st1 w1 u (author_id m) (msg_channelId m) (thread_of m) of
             (Inl e, st3, w3) \<Rightarrow> (Errored e, st3, w3)
           | (Inr _, st3, w3) \<Rightarrow> (FirstPost, st3, w3)))"

text \<open>\<open>for (const url of urls) await this.processUrl(url, message);\<close>\<close>

fun process_each ::
  "env \<Rightarrow> UrlStore \<Rightarrow> store_world \<Rightarrow> string list \<Rightarrow> message
     \<Rightarrow> outcome list \<times> UrlStore \<times> store_world" where
  "process_each ev st w [] m = ([], st, w)"
| "process_each ev st w (u # us) m =
     (case processUrl ev st w u m of
        (oc, st1, w1) \<Rightarrow>
          (case process_each ev st1 w1 us m of
             (ocs, st2, w2) \<Rightarrow> (oc # ocs, st2, w2)))"

text \<open>
  The guards of \<open>handleMessage\<close>: bot authors and commands are ignored, and so is every
  message outside the main channel and its threads (\<open>!==\<close> against an unset variable is
  true for every channel id).
\<close>

definition outside_main :: "env \<Rightarrow> message \<Rightarrow> bool" where
  "outside_main ev m =
     (case MAIN_CHANNEL_ID ev of
        None \<Rightarrow> True
      | Some main \<Rightarrow> msg_channelId m \<noteq> main \<and> parentId m \<noteq> Some main)"

definition handleMessage ::
  "env \<Rightarrow> UrlStore \<Rightarrow> store_world \<Rightarrow> message \<Rightarrow> outcome list \<times> UrlStore \<times> store_world" where
  "handleMessage ev st w m =
     (if author_bot m \<or> take 1 (content m) = ''!'' then ([], st, w)
      else if outside_main ev m then ([], st, w)
      else process_each ev st w (match_urlRegex (content m)) m)"

section \<open>UrlStorage (src/unnamed/part_002)\<close>

subsection \<open>JavaScript helpers\<close>

text \<open>\<open>String.prototype.trim\<close>: the white space and line terminators among the code units below 256.\<close>

definition js_whitespace :: "char \<Rightarrow> bool" where
  "js_whitespace c \<longleftrightarrow>
     c \<in> {CHR 0x09, CHR 0x0A, CHR 0x0B, CHR 0x0C, CHR 0x0D, CHR '' '', CHR 0xA0}"

definition trim :: "string \<Rightarrow> string" where
  "trim s = rev (dropWhile js_whitespace (rev (dropWhile js_whitespace s)))"

text \<open>
  A \<open>Map\<close> is an association list in insertion order: \<open>get\<close> is \<^const>\<open>map_of\<close>, \<open>set\<close>
  is \<^const>\<open>AList.update\<close> (an existing key keeps its place, a new one goes last).

  A plain object lists its own keys with the array indices first, in ascending numeric
  order, and the other strings after them in insertion order. An array index is the
  canonical decimal text of an integer below \<open>2^32 - 1\<close>.
\<close>

definition digit :: "char \<Rightarrow> bool" where
  "digit c \<longleftrightarrow> c \<in> set ''0123456789''"

definition index_val :: "string \<Rightarrow> nat" where
  "index_val s = foldl (\<lambda>n c. 10 * n + (of_char c - 48)) 0 s"

definition array_index :: "string \<Rightarrow> bool" where
  "array_index s \<longleftrightarrow>
     s \<noteq> [] \<and> list_all digit s \<and> (s = ''0'' \<or> hd s \<noteq> CHR ''0'') \<and> index_val s < 4294967295"

fun insert_index :: "string \<Rightarrow> 'v \<Rightarrow> (string \<times> 'v) list \<Rightarrow> (string \<times> 'v) list" where
  "insert_index k v [] = [(k, v)]"
| "insert_index k v (p # ps) =
     (if array_index (fst p) \<and> index_val (fst p) < index_val k
      then p # insert_index k v ps
      else (k, v) # p # ps)"

text \<open>Defining one property on an object.\<close>

definition obj_put :: "string \<Rightarrow> 'v \<Rightarrow> (string \<times> 'v) list \<Rightarrow> (string \<times> 'v) list" where
  "obj_put k v ob =
     (if k \<in> fst ` set ob then AList.update k v ob
      else if array_index k then insert_index k v ob
      else ob @ [(k, v)])"

definition Object_fromEntries :: "(string \<times> 'v) list \<Rightarrow> (string \<times> 'v) list" where
  "Object_fromEntries es = foldl (\<lambda>ob (k, v). obj_put k v ob) [] es"

subsection \<open>The store\<close>

record UrlStorage =
  urls :: "(string \<times> url_entry list) list"
  isInitialized :: bool

text \<open>
  The world of \<open>UrlStorage\<close> and its tracker: the file holds the object written by
  \<open>JSON.stringify(Object.fromEntries(this.urls))\<close>, and Discord answers the two fetches of
  \<open>handleUrlMessage\<close>. A fetch resolves to an object, resolves to \<open>null\<close>, or rejects: because
  Discord reports the object unknown, or because the request itself failed.
\<close>

datatype fetch_failure = Unknown | Unavailable

datatype fetched = Resolved | ResolvedNull | Rejected fetch_failure

record storage_world = "(string \<times> url_entry list) list world" +
  fetch_channel :: "string option \<Rightarrow> fetched"
  fetch_message :: "string option \<Rightarrow> string option \<Rightarrow> fetched"

definition UrlStorage_new :: UrlStorage where
  "UrlStorage_new = \<lparr>urls = [], isInitialized = False\<rparr>"

text \<open>
  \<open>init\<close> never throws: an unset \<open>MAIN_CHANNEL_ID\<close> or text that does not parse ends in the
  \<open>catch\<close>, which empties the store; a file that cannot be read counts as \<open>'{}'\<close>. The loop
  sets the loaded channels into the map the store already has. A file that parses is taken
  to hold what the store writes: an object from channel ids to arrays of entries.
\<close>

definition UrlStorage_init :: "env \<Rightarrow> UrlStorage \<Rightarrow> storage_world \<Rightarrow> UrlStorage" where
  "UrlStorage_init ev st w =
     (let failed = \<lparr>urls = [], isInitialized = False\<rparr>;
          loaded = (\<lambda>urlData.
            \<lparr>urls = foldl (\<lambda>mp (chan, us). AList.update chan us mp) (urls st) urlData,
             isInitialized = True\<rparr>)
      in case MAIN_CHANNEL_ID ev of
           None \<Rightarrow> failed
         | Some mainChannelId \<Rightarrow>
             if mainChannelId = [] then failed
             else (case disk w of
                     NoFile \<Rightarrow> loaded []
                   | Unreadable \<Rightarrow> loaded []
                   | Garbage \<Rightarrow> failed
                   | Parsed urlData \<Rightarrow> loaded urlData))"

definition isDuplicateUrl :: "UrlStorage \<Rightarrow> string \<Rightarrow> bool" where
  "isDuplicateUrl st u =
     list_ex (\<lambda>(chan, us). list_ex (\<lambda>entry. trim (url entry) = trim u) us) (urls st)"

text \<open>
  The entry found is returned as \<open>{ ...foundUrl, channelId }\<close>: its channel is the key of the
  map under which it is stored. Before \<open>init\<close> the answer is \<open>null\<close>, as for an unknown URL.
\<close>

fun find_in_channels :: "string \<Rightarrow> (string \<times> url_entry list) list \<Rightarrow> url_entry option" where
  "find_in_channels trimmedUrl [] = None"
| "find_in_channels trimmedUrl ((chan, us) # rest) =
     (case find (\<lambda>entry. trim (url entry) = trimmedUrl) us of
        Some foundUrl \<Rightarrow> Some (foundUrl\<lparr>channelId := Some chan\<rparr>)
      | None \<Rightarrow> find_in_channels trimmedUrl rest)"

definition UrlStorage_findUrlHistory :: "UrlStorage \<Rightarrow> string \<Rightarrow> url_entry option" where
  "UrlStorage_findUrlHistory st u =
     (if \<not> isInitialized st then None else find_in_channels (trim u) (urls st))"

text \<open>\<open>Object.fromEntries(this.urls)\<close> followed by \<open>fs.writeFile\<close>.\<close>

definition persist :: "UrlStorage \<Rightarrow> storage_world \<Rightarrow> bool \<times> storage_world" where
  "persist st w = writeFile (Object_fromEntries (urls st)) w"

text \<open>
  \<open>saveUrls\<close>: the duplicate test looks at the map as it was on entry; the additions are
  appended with their URL trimmed, the array is sorted newest first
  (\<open>sort((a, b) => b.timestamp - a.timestamp)\<close>, stable) and set into the map before the
  write. A failed write is caught and reported as a count of 0, with the map already
  changed.
\<close>

definition saveUrls ::
  "UrlStorage \<Rightarrow> storage_world \<Rightarrow> string \<Rightarrow> url_entry list \<Rightarrow> nat \<times> UrlStorage \<times> storage_world" where
  "saveUrls st w cid newUrls =
     (if \<not> isInitialized st then (0, st, w)
      else
        let existingUrls = (case map_of (urls st) cid of None \<Rightarrow> [] | Some us \<Rightarrow> us);
            added = map (\<lambda>newUrl. newUrl\<lparr>url := trim (url newUrl)\<rparr>)
                      (filter (\<lambda>newUrl. \<not> isDuplicateUrl st (url newUrl)) newUrls);
            addedCount = length added
        in if addedCount > 0
           then
             let updatedUrls = sort_key (\<lambda>entry. - timestamp entry) (existingUrls @ added);
                 st1 = st\<lparr>urls := AList.update cid updatedUrls (urls st)\<rparr>
             in (case persist st1 w of
                   (True, w1) \<Rightarrow> (addedCount, st1, w1)
                 | (False, w1) \<Rightarrow> (0, st1, w1))
           else (addedCount, st, w))"

definition UrlStorage_addUrl ::
  "UrlStorage \<Rightarrow> storage_world \<Rightarrow> string \<Rightarrow> string \<Rightarrow> string \<Rightarrow> string option
     \<Rightarrow> string option \<Rightarrow> string option \<Rightarrow> url_entry option \<times> UrlStorage \<times> storage_world" where
  "UrlStorage_addUrl st w u uid cid tid mid murl =
     (if \<not> isInitialized st then (None, st, w)
      else
        let trimmedUrl = trim u
        in if isDuplicateUrl st trimmedUrl then (None, st, w)
           else (case Date_now w of
                   (t, w1) \<Rightarrow>
                     let urlEntry = \<lparr>url = trimmedUrl, userId = Some uid, channelId = Some cid,
                                      threadId = tid, messageId = mid, messageUrl = murl,
                                      author = None, timestamp = t\<rparr>
                     in (case saveUrls st w1 cid [urlEntry] of
                           (addedCount, st2, w2) \<Rightarrow>
                             if addedCount > 0 then (Some urlEntry, st2, w2)
                             else (None, st2, w2))))"

text \<open>
  \<open>deleteUrl\<close>: the first channel, in map order, that holds a matching entry loses its
  first match (\<open>splice\<close> on the stored array), then the file is rewritten. That write is
  not guarded: its rejection leaves \<open>deleteUrl\<close> as an exception, with the entry already
  removed in memory.
\<close>

fun remove_first :: "('a \<Rightarrow> bool) \<Rightarrow> 'a list \<Rightarrow> 'a list" where
  "remove_first P [] = []"
| "remove_first P (x # xs) = (if P x then xs else x # remove_first P xs)"

fun delete_in_channels ::
  "string \<Rightarrow> (string \<times> url_entry list) list \<Rightarrow> (string \<times> url_entry list) list option" where
  "delete_in_channels trimmedUrl [] = None"
| "delete_in_channels trimmedUrl ((chan, us) # rest) =
     (if list_ex (\<lambda>entry. trim (url entry) = trimmedUrl) us
      then Some ((chan, remove_first (\<lambda>entry. trim (url entry) = trimmedUrl) us) # rest)
      else map_option (\<lambda>rest'. (chan, us) # rest') (delete_in_channels trimmedUrl rest))"

definition UrlStorage_deleteUrl ::
  "UrlStorage \<Rightarrow> storage_world \<Rightarrow> string \<Rightarrow> (exn + bool) \<times> UrlStorage \<times> storage_world" where
  "UrlStorage_deleteUrl st w u =
     (if \<not> isInitialized st then (Inr False, st, w)
      else (case delete_in_channels (trim u) (urls st) of
              None \<Rightarrow> (Inr False, st, w)
            | Some urls' \<Rightarrow>
                let st1 = st\<lparr>urls := urls'\<rparr>
                in (case persist st1 w of
                      (True, w1) \<Rightarrow> (Inr True, st1, w1)
                    | (False, w1) \<Rightarrow> (Inl EIO, st1, w1))))"

section \<open>UrlTracker over UrlStorage (src/urlTracker.js)\<close>

text \<open>
  What the body of the loop in \<open>handleUrlMessage\<close> did for one URL: it ran
  \<open>addNewUrlEntry\<close> (with what \<open>addUrl\<close> returned), sent the notice for another user's
  content, found the author's own content in the same channel and did nothing, or threw.
\<close>

datatype handled =
    NewEntry "url_entry option"
  | NotifiedOtherUser
  | SameUserSameChannel
  | Thrown exn

text \<open>\<open>addNewUrlEntry\<close>; reading \<open>message.guild.id\<close> throws when the message has no guild.\<close>

definition addNewUrlEntry ::
  "UrlStorage \<Rightarrow> storage_world \<Rightarrow> message \<Rightarrow> string \<Rightarrow> handled \<times> UrlStorage \<times> storage_world" where
  "addNewUrlEntry st w m u =
     (case guild_id m of
        None \<Rightarrow> (Thrown TypeError, st, w)
      | Some g \<Rightarrow>
          let messageUrl = ''https://discord.com/channels/'' @ g @ ''/'' @ msg_channelId m @ ''/'' @ msg_id m
          in (case UrlStorage_addUrl st w u (author_id m) (msg_channelId m) (thread_of m)
                     (Some (msg_id m)) (Some messageUrl) of
                (r, st1, w1) \<Rightarrow> (NewEntry r, st1, w1)))"

text \<open>
  The existence check. A rejected channel fetch leaves the loop as an exception. A channel
  that resolves to \<open>null\<close> leaves \<open>originalMessageExists\<close> false without touching the store.
  With a channel, the message fetch decides: resolved means the message exists; rejected,
  for whatever reason, runs the \<open>catch\<close>, which deletes the entry.
\<close>

definition originalMessageExists ::
  "UrlStorage \<Rightarrow> storage_world \<Rightarrow> string \<Rightarrow> url_entry
     \<Rightarrow> (exn + bool) \<times> UrlStorage \<times> storage_world" where
  "originalMessageExists st w u existingUrl =
     (case fetch_channel w (channelId existingUrl) of
        Rejected r \<Rightarrow> (Inl DiscordAPIError, st, w)
      | ResolvedNull \<Rightarrow> (Inr False, st, w)
      | Resolved \<Rightarrow>
          (case fetch_message w (channelId existingUrl) (messageId existingUrl) of
             Rejected r \<Rightarrow>
               (case UrlStorage_deleteUrl st w u of
                  (Inl e, st1, w1) \<Rightarrow> (Inl e, st1, w1)
                | (Inr _, st1, w1) \<Rightarrow> (Inr False, st1, w1))
           | _ \<Rightarrow> (Inr True, st, w)))"

text \<open>
  The notice for another user's content: the embed is built and \<open>message.reply\<close> sends it,
  one Discord call. For the author's own content in another channel the code calls
  \<open>createDuplicateEmbed\<close>, which the module neither defines nor imports: evaluating that
  identifier throws a \<open>ReferenceError\<close> before anything is sent.
\<close>

definition notify :: "handled \<Rightarrow> UrlStorage \<Rightarrow> storage_world \<Rightarrow> handled \<times> UrlStorage \<times> storage_world" where
  "notify h st w =
     (case discord_call w of
        (True, w1) \<Rightarrow> (h, st, w1)
      | (False, w1) \<Rightarrow> (Thrown DiscordAPIError, st, w1))"

definition handleUrl ::
  "UrlStorage \<Rightarrow> storage_world \<Rightarrow> message \<Rightarrow> string \<Rightarrow> handled \<times> UrlStorage \<times> storage_world" where
  "handleUrl st w m u =
     (case UrlStorage_findUrlHistory st u of
        None \<Rightarrow> addNewUrlEntry st w m u
      | Some existingUrl \<Rightarrow>
          (case originalMessageExists st w u existingUrl of
             (Inl e, st1, w1) \<Rightarrow> (Thrown e, st1, w1)
           | (Inr True, st1, w1) \<Rightarrow>
               if userId existingUrl \<noteq> Some (author_id m)
               then notify NotifiedOtherUser st1 w1
               else if channelId existingUrl \<noteq> Some (msg_channelId m)
               then (Thrown ReferenceError, st1, w1)
               else (SameUserSameChannel, st1, w1)
           | (Inr False, st1, w1) \<Rightarrow> addNewUrlEntry st1 w1 m u))"

text \<open>
  \<open>handleUrlMessage\<close>: one \<open>try\<close> around the whole loop, so the first exception ends the
  handling of the message; the \<open>catch\<close> logs it.
\<close>

fun handleUrlMessage ::
  "UrlStorage \<Rightarrow> storage_world \<Rightarrow> message \<Rightarrow> string list
     \<Rightarrow> handled list \<times> UrlStorage \<times> storage_world" where
  "handleUrlMessage st w m [] = ([], st, w)"
| "handleUrlMessage st w m (u # us) =
     (case handleUrl st w m u of
        (Thrown e, st1, w1) \<Rightarrow> ([Thrown e], st1, w1)
      | (h, st1, w1) \<Rightarrow>
          (case handleUrlMessage st1 w1 m us of
             (hs, st2, w2) \<Rightarrow> (h # hs, st2, w2)))"

text \<open>
  The body of the loop in the earlier \<open>handleUrlMessage\<close> (src/unnamed/part_000, part_001),
  again inside one \<open>try\<close> around the loop. An unknown URL is left alone (new URLs enter the
  store through \<open>syncWithStorage\<close>). The existence check is made only for the author's own
  record in the same channel: \<open>messages.fetch(...).catch(() => null)\<close> turns every rejection
  into \<open>null\<close>, and \<open>null\<close> deletes the entry.
\<close>

datatype handled_before =
    UnknownUrl
  | OtherAuthor
  | OtherThread
  | SameThread
  | EntryDeleted
  | ThrownBefore exn

definition reply_with ::
  "handled_before \<Rightarrow> UrlStorage \<Rightarrow> storage_world
     \<Rightarrow> handled_before \<times> UrlStorage \<times> storage_world" where
  "reply_with h st w =
     (case discord_call w of
        (True, w1) \<Rightarrow> (h, st, w1)
      | (False, w1) \<Rightarrow> (ThrownBefore DiscordAPIError, st, w1))"

definition handleUrl_before ::
  "UrlStorage \<Rightarrow> storage_world \<Rightarrow> message \<Rightarrow> string
     \<Rightarrow> handled_before \<times> UrlStorage \<times> storage_world" where
  "handleUrl_before st w m u =
     (case UrlStorage_findUrlHistory st u of
        None \<Rightarrow> (UnknownUrl, st, w)
      | Some existingUrl \<Rightarrow>
          if author existingUrl \<noteq> Some (author_tag m)
          then reply_with OtherAuthor st w
          else if channelId existingUrl \<noteq> Some (msg_channelId m)
          then reply_with OtherThread st w
          else (case fetch_message w (Some (msg_channelId m)) (messageId existingUrl) of
                  Resolved \<Rightarrow> reply_with SameThread st w
                | _ \<Rightarrow>
                    (case UrlStorage_deleteUrl st w u of
                       (Inl e, st1, w1) \<Rightarrow> (ThrownBefore e, st1, w1)
                     | (Inr _, st1, w1) \<Rightarrow> (EntryDeleted, st1, w1))))"

text \<open>
  \<open>fetchAllUrlsFromChannel\<close> ends with
  \<open>urls.filter((url, index, self) => index === self.findIndex((t) => t.url === url.url))\<close>.
\<close>

fun findIndex :: "('a \<Rightarrow> bool) \<Rightarrow> 'a list \<Rightarrow> int" where
  "findIndex P [] = - 1"
| "findIndex P (x # xs) =
     (if P x then 0 else (let i = findIndex P xs in if i < 0 then - 1 else i + 1))"

definition unique_urls :: "url_entry list \<Rightarrow> url_entry list" where
  "unique_urls self =
     map snd (filter (\<lambda>(index, e). int index = findIndex (\<lambda>t. url t = url e) self)
                (enumerate 0 self))"

section \<open>Notions used in the statements\<close>

text \<open>The entry that \<open>processUrl\<close> stores for URL \<open>u\<close> of message \<open>m\<close> when the clock reads \<open>t\<close>.\<close>

definition posting :: "string \<Rightarrow> message \<Rightarrow> int \<Rightarrow> url_entry" where
  "posting u m t =
     \<lparr>url = u, userId = Some (author_id m), channelId = Some (msg_channelId m),
      threadId = thread_of m, messageId = None, messageUrl = None, author = None, timestamp = t\<rparr>"

text \<open>The age in hours that \<open>getPostAgeHours\<close> finds for entry \<open>h\<close> at the next clock reading.\<close>

definition post_age :: "store_world \<Rightarrow> url_entry \<Rightarrow> rat" where
  "post_age w h = of_int (clock w (clock_reads w) - timestamp h) / (1000 * 60 * 60)"

text \<open>\<open>this.data.urls\<close> of a store whose data has such an array.\<close>

definition data_urls :: "UrlStore \<Rightarrow> url_entry list" where
  "data_urls st = (case data st of Urls es \<Rightarrow> es | NoUrls \<Rightarrow> [])"

text \<open>
  Until it is initialized a \<open>UrlStore\<close> holds the empty array of its constructor: so it is
  when constructed, and so every operation leaves it.
\<close>

definition loaded_or_empty :: "UrlStore \<Rightarrow> bool" where
  "loaded_or_empty st \<longleftrightarrow> initialized st \<or> data st = Urls []"

text \<open>Every entry of the store, channel after channel in map order.\<close>

definition all_entries :: "UrlStorage \<Rightarrow> url_entry list" where
  "all_entries st = concat (map snd (urls st))"

text \<open>No two entries of the store have the same trimmed URL.\<close>

definition one_per_url :: "UrlStorage \<Rightarrow> bool" where
  "one_per_url st \<longleftrightarrow> distinct (map (\<lambda>e. trim (url e)) (all_entries st))"

text \<open>Calls of \<open>addUrl\<close> and \<open>deleteUrl\<close> on a \<open>UrlStorage\<close>, and runs of such calls.\<close>

datatype store_op =
    AddUrl string string string "string option" "string option" "string option"
  | DeleteUrl string

fun apply_op :: "UrlStorage \<Rightarrow> storage_world \<Rightarrow> store_op \<Rightarrow> UrlStorage \<times> storage_world" where
  "apply_op st w (AddUrl u uid cid tid mid murl) = snd (UrlStorage_addUrl st w u uid cid tid mid murl)"
| "apply_op st w (DeleteUrl u) = snd (UrlStorage_deleteUrl st w u)"

fun run_ops :: "UrlStorage \<Rightarrow> storage_world \<Rightarrow> store_op list \<Rightarrow> UrlStorage \<times> storage_world" where
  "run_ops st w [] = (st, w)"
| "run_ops st w (op # ops) = (case apply_op st w op of (st1, w1) \<Rightarrow> run_ops st1 w1 ops)"

text \<open>The entry that \<open>UrlStorage.addUrl\<close> builds when the clock reads \<open>t\<close>.\<close>

definition stored_entry ::
  "string \<Rightarrow> string \<Rightarrow> string \<Rightarrow> string option \<Rightarrow> string option \<Rightarrow> string option \<Rightarrow> int
     \<Rightarrow> url_entry" where
  "stored_entry u uid cid tid mid murl t =
     \<lparr>url = trim u, userId = Some uid, channelId = Some cid, threadId = tid, messageId = mid,
      messageUrl = murl, author = None, timestamp = t\<rparr>"

text \<open>The store after \<open>saveUrls\<close> has put one new entry \<open>e\<close> into channel \<open>cid\<close>.\<close>

definition with_entry :: "UrlStorage \<Rightarrow> string \<Rightarrow> url_entry \<Rightarrow> UrlStorage" where
  "with_entry st cid e =
     st\<lparr>urls := AList.update cid
        (sort_key (\<lambda>entry. - timestamp entry)
           ((case map_of (urls st) cid of None \<Rightarrow> [] | Some us \<Rightarrow> us) @ [e]))
        (urls st)\<rparr>"

text \<open>Keeping, in order, the first entry of each URL not yet seen.\<close>

fun keep_first :: "string set \<Rightarrow> url_entry list \<Rightarrow> url_entry list" where
  "keep_first seen [] = []"
| "keep_first seen (e # es) =
     (if url e \<in> seen then keep_first seen es else e # keep_first (insert (url e) seen) es)"

section \<open>Concrete scenarios\<close>

text \<open>The values from which the scenarios below are built.\<close>

definition entry_at :: "string \<Rightarrow> string \<Rightarrow> string \<Rightarrow> int \<Rightarrow> url_entry" where
  "entry_at u uid cid t =
     \<lparr>url = u, userId = Some uid, channelId = Some cid, threadId = None,
      messageId = None, messageUrl = None, author = None, timestamp = t\<rparr>"

text \<open>A world in which every write and every Discord call succeeds and the clock stands at \<open>t\<close>.\<close>

definition quiet_world :: "store_data fs_file \<Rightarrow> int \<Rightarrow> store_world" where
  "quiet_world f t =
     \<lparr>disk = f, write_ok = (\<lambda>_. True), writes = 0, clock = (\<lambda>_. t), clock_reads = 0,
      discord_ok = (\<lambda>_. True), discord_calls = 0\<rparr>"

text \<open>
  A deletable message \<open>m1\<close> with text \<open>txt\<close>, written by the user \<open>uid\<close> (not a bot) in the
  channel \<open>cid\<close> of guild \<open>g\<close>, outside a thread.
\<close>

definition post :: "string \<Rightarrow> string \<Rightarrow> string \<Rightarrow> message" where
  "post uid cid txt =
     \<lparr>msg_id = ''m1'', author_id = uid, author_tag = uid, author_bot = False, content = txt,
      msg_channelId = cid, parentId = None, isThread = False, deletable = True,
      guild_id = Some ''g''\<rparr>"

text \<open>The main channel is \<open>c1\<close> and the repost threshold is 24 hours.\<close>

definition config :: env where
  "config = \<lparr>MAIN_CHANNEL_ID = Some ''c1'', URL_REPOST_THRESHOLD_HOURS = Some 24\<rparr>"

text \<open>One hour in milliseconds.\<close>

definition hour :: int where
  "hour = 1000 * 60 * 60"

text \<open>
  A world for \<open>UrlStorage\<close>: every write has the outcome \<open>ok\<close>, the clock stands at \<open>t\<close>, every
  channel is found and every message fetch has the outcome \<open>fm\<close>.
\<close>

definition storage_scene ::
  "(string \<times> url_entry list) list fs_file \<Rightarrow> int \<Rightarrow> bool \<Rightarrow> fetched \<Rightarrow> storage_world" where
  "storage_scene f t ok fm =
     \<lparr>disk = f, write_ok = (\<lambda>_. ok), writes = 0, clock = (\<lambda>_. t), clock_reads = 0,
      discord_ok = (\<lambda>_. True), discord_calls = 0,
      fetch_channel = (\<lambda>_. Resolved), fetch_message = (\<lambda>_ _. fm)\<rparr>"

text \<open>The entry that \<open>addNewUrlEntry\<close> stores for a message \<open>mid\<close> of guild \<open>g\<close> outside a thread.\<close>

definition posted_by :: "string \<Rightarrow> string \<Rightarrow> string \<Rightarrow> string \<Rightarrow> int \<Rightarrow> url_entry" where
  "posted_by u uid cid mid t =
     stored_entry u uid cid None (Some mid)
       (Some (''https://discord.com/channels/g/'' @ cid @ ''/'' @ mid)) t"

text \<open>An entry as \<open>syncWithStorage\<close> stores it: found in a channel's history, with the author's tag.\<close>

definition synced_by :: "string \<Rightarrow> string \<Rightarrow> int \<Rightarrow> url_entry" where
  "synced_by u tag t =
     \<lparr>url = u, userId = None, channelId = None, threadId = None, messageId = None,
      messageUrl = None, author = Some tag, timestamp = t\<rparr>"

section \<open>UrlStore: lookup and append\<close>

lemma first_elem_sort_key_min:
  "first_elem (sort_key f xs) = Some x \<Longrightarrow> x \<in> set xs \<and> (\<forall>y \<in> set xs. f x \<le> f y)"
proof -
  assume h: "first_elem (sort_key f xs) = Some x"
  then obtain rest where eq: "sort_key f xs = x # rest"
    by (auto simp: first_elem_def split: list.splits)
  have "sorted (map f (sort_key f xs))" by (rule sorted_sort_key)
  with eq have "\<forall>y \<in> set (x # rest). f x \<le> f y" by auto
  moreover have "set (x # rest) = set xs" using eq set_sort [of f xs] by simp
  ultimately show ?thesis by auto
qed

lemma first_elem_None: "first_elem xs = None \<longleftrightarrow> xs = []"
  by (simp add: first_elem_def split: list.splits)

lemma earliest_Some:
  "earliest u es = Some e \<Longrightarrow>
     e \<in> set es \<and> url e = u \<and> (\<forall>e' \<in> set es. url e' = u \<longrightarrow> timestamp e \<le> timestamp e')"
  unfolding earliest_def by (drule first_elem_sort_key_min) auto

lemma earliest_None: "earliest u es = None \<longleftrightarrow> (\<forall>e \<in> set es. url e \<noteq> u)"
proof -
  have "sort_key timestamp (filter (\<lambda>entry. url entry = u) es) = []
          \<longleftrightarrow> filter (\<lambda>entry. url entry = u) es = []"
    by (metis length_sort length_0_conv)
  then show ?thesis
    by (simp add: earliest_def first_elem_None filter_empty_conv)
qed

lemma filter_Cons_find: "filter P xs = x # r \<Longrightarrow> find P xs = Some x"
  by (induction xs) (auto split: if_splits)

lemma first_elem_sort_key_stable:
  assumes "first_elem (sort_key f xs) = Some x"
  shows "find (\<lambda>y. f y = f x) xs = Some x"
proof -
  from assms obtain rest where eq: "sort_key f xs = x # rest"
    by (auto simp: first_elem_def split: list.splits)
  have "filter (\<lambda>y. f y = f x) xs = filter (\<lambda>y. f y = f x) (sort_key f xs)"
    by (simp add: sort_key_stable)
  also have "\<dots> = x # filter (\<lambda>y. f y = f x) rest" by (simp add: eq)
  finally show ?thesis by (rule filter_Cons_find)
qed

lemma find_filter_conj: "find Q (filter P xs) = find (\<lambda>y. P y \<and> Q y) xs"
  by (induction xs) auto

lemma earliest_first_stored:
  "earliest u es = Some e \<Longrightarrow> find (\<lambda>y. url y = u \<and> timestamp y = timestamp e) es = Some e"
  unfolding earliest_def
  by (drule first_elem_sort_key_stable) (simp add: find_filter_conj)

lemma first_elem_insort_key:
  "first_elem (insort_key f a ys) =
     (case first_elem ys of None \<Rightarrow> Some a | Some y \<Rightarrow> if f a \<le> f y then Some a else Some y)"
  by (cases ys) (auto simp: first_elem_def)

lemma first_elem_sort_key_snoc:
  "first_elem (sort_key f (xs @ [x])) =
     (case first_elem (sort_key f xs) of None \<Rightarrow> Some x
      | Some y \<Rightarrow> if f y \<le> f x then Some y else Some x)"
proof (induction xs)
  case Nil
  then show ?case by (simp add: first_elem_def)
next
  case (Cons a xs)
  show ?case
    by (auto simp: first_elem_insort_key Cons.IH split: option.splits)
qed

lemma earliest_snoc:
  "earliest u (es @ [e]) =
     (if url e = u
      then (case earliest u es of None \<Rightarrow> Some e
            | Some h \<Rightarrow> if timestamp h \<le> timestamp e then Some h else Some e)
      else earliest u es)"
  by (simp add: earliest_def first_elem_sort_key_snoc)

lemma earliest_other: "url e \<noteq> u \<Longrightarrow> earliest u [e] = None"
  by (simp add: earliest_def first_elem_def)

lemma ensure_init_initialized: "initialized st \<Longrightarrow> ensure_init st w = (Inr (), st, w)"
  by (simp add: ensure_init_def)

lemma data_urls_Urls: "data st = Urls es \<Longrightarrow> data_urls st = es"
  by (simp add: data_urls_def)

lemma data_urls_NoUrls: "data st = NoUrls \<Longrightarrow> data_urls st = []"
  by (simp add: data_urls_def)

lemma data_urls_update: "data_urls (st\<lparr>data := Urls es\<rparr>) = es"
  by (simp add: data_urls_def)

lemma data_urls_literal: "data_urls \<lparr>data = Urls es, initialized = b\<rparr> = es"
  by (simp add: data_urls_def)

lemma earliest_Nil: "earliest u [] = None"
  by (simp add: earliest_def first_elem_def)

lemma earliest_Some_Urls: "earliest u (data_urls st) = Some h \<Longrightarrow> data st = Urls (data_urls st)"
  by (cases "data st") (simp_all add: data_urls_def earliest_Nil)

lemma findUrlHistory_initialized:
  "initialized st \<Longrightarrow> data st = Urls es \<Longrightarrow>
     UrlStore_findUrlHistory st w u = (Inr (earliest u es), st, w)"
  by (simp add: UrlStore_findUrlHistory_def ensure_init_initialized)

lemma findUrlHistory_no_urls:
  "initialized st \<Longrightarrow> data st = NoUrls \<Longrightarrow>
     UrlStore_findUrlHistory st w u = (Inl TypeError, st, w)"
  by (simp add: UrlStore_findUrlHistory_def ensure_init_initialized)

lemma findUrlHistory_Inr:
  "UrlStore_findUrlHistory st w u = (Inr r, st', w') \<Longrightarrow>
     data st' = Urls (data_urls st') \<and> r = earliest u (data_urls st')"
  by (auto simp: UrlStore_findUrlHistory_def data_urls_def
      split: prod.splits sum.splits store_data.splits)

lemma addUrl_initialized:
  assumes "initialized st" and "data st = Urls es"
  shows "UrlStore_addUrl st w u (author_id m) (msg_channelId m) (thread_of m) =
     (let e = posting u m (clock w (clock_reads w));
          st2 = st\<lparr>data := Urls (es @ [e])\<rparr>
      in if write_ok w (writes w)
         then (Inr e, st2, w\<lparr>disk := Parsed (Urls (es @ [e])), writes := Suc (writes w),
                               clock_reads := Suc (clock_reads w)\<rparr>)
         else (Inl EIO, st2, w\<lparr>writes := Suc (writes w), clock_reads := Suc (clock_reads w)\<rparr>))"
  using assms
  by (simp add: UrlStore_addUrl_def ensure_init_initialized Date_now_def saveData_def
      writeFile_def posting_def Let_def)

lemma addUrl_no_urls:
  assumes "initialized st" and "data st = NoUrls"
  shows "UrlStore_addUrl st w u uid cid tid =
           (Inl TypeError, st, w\<lparr>clock_reads := Suc (clock_reads w)\<rparr>)"
  using assms
  by (simp add: UrlStore_addUrl_def ensure_init_initialized Date_now_def Let_def)

lemma UrlStore_loaded:
  "(st :: UrlStore)\<lparr>data := d, initialized := True\<rparr> = \<lparr>data = d, initialized = True\<rparr>"
  by (cases st) simp

section \<open>processUrl and handleMessage\<close>

lemma processUrl_found:
  assumes "initialized st" and "earliest u (data_urls st) = Some h"
  shows "processUrl ev st w u m =
     (let w2 = w\<lparr>clock_reads := Suc (clock_reads w)\<rparr>
      in if above_threshold (post_age w h) (URL_REPOST_THRESHOLD_HOURS ev)
         then (case UrlStore_addUrl st w2 u (author_id m) (msg_channelId m) (thread_of m) of
                 (Inl e, st3, w3) \<Rightarrow> (Errored e, st3, w3)
               | (Inr _, st3, w3) \<Rightarrow> (RepostAllowed, st3, w3))
         else
           let embed = createRepostEmbed ev (post_age w h) (userId h = Some (author_id m))
           in (case discord_call w2 of
                 (False, w3) \<Rightarrow> (Errored DiscordAPIError, st, w3)
               | (True, w3) \<Rightarrow>
                   if deletable m
                   then (case discord_call w3 of
                           (False, w4) \<Rightarrow> (Errored DiscordAPIError, st, w4)
                         | (True, w4) \<Rightarrow> (RepostBlocked embed True, st, w4))
                   else (RepostBlocked embed False, st, w3)))"
  using assms earliest_Some_Urls [OF assms(2)]
  by (simp add: processUrl_def findUrlHistory_initialized getPostAgeHours_def Date_now_def
      post_age_def Let_def)

lemma processUrl_absent:
  assumes "initialized st" and "data st = Urls es" and "earliest u es = None"
  shows "processUrl ev st w u m =
     (case UrlStore_addUrl st w u (author_id m) (msg_channelId m) (thread_of m) of
        (Inl e, st3, w3) \<Rightarrow> (Errored e, st3, w3)
      | (Inr _, st3, w3) \<Rightarrow> (FirstPost, st3, w3))"
  using assms by (simp add: processUrl_def findUrlHistory_initialized)

lemma processUrl_no_urls:
  assumes "initialized st" and "data st = NoUrls"
  shows "processUrl ev st w u m = (Errored TypeError, st, w)"
  using assms by (simp add: processUrl_def findUrlHistory_no_urls)

lemma disk_discord_call: "discord_call w = (b, w') \<Longrightarrow> disk w' = disk w"
  by (auto simp: discord_call_def)

lemma processUrl_within:
  assumes "initialized st" and "earliest u (data_urls st) = Some h"
    and "\<not> above_threshold (post_age w h) (URL_REPOST_THRESHOLD_HOURS ev)"
  shows "fst (snd (processUrl ev st w u m)) = st"
    and "disk (snd (snd (processUrl ev st w u m))) = disk w"
    and "fst (processUrl ev st w u m) = Errored DiscordAPIError
           \<or> fst (processUrl ev st w u m) = RepostBlocked
                 (createRepostEmbed ev (post_age w h) (userId h = Some (author_id m)))
                 (deletable m)"
    and "discord_ok w (discord_calls w) \<Longrightarrow> discord_ok w (Suc (discord_calls w))
           \<Longrightarrow> fst (processUrl ev st w u m) = RepostBlocked
                 (createRepostEmbed ev (post_age w h) (userId h = Some (author_id m)))
                 (deletable m)"
  using assms
  by (cases "discord_ok w (discord_calls w)"; cases "discord_ok w (Suc (discord_calls w))";
      simp add: processUrl_found discord_call_def Let_def)+

lemma processUrl_expired:
  assumes "initialized st" and "earliest u (data_urls st) = Some h"
    and "above_threshold (post_age w h) (URL_REPOST_THRESHOLD_HOURS ev)"
  shows "processUrl ev st w u m =
     (let e = posting u m (clock w (Suc (clock_reads w)));
          st2 = st\<lparr>data := Urls (data_urls st @ [e])\<rparr>
      in if write_ok w (writes w)
         then (RepostAllowed, st2, w\<lparr>disk := Parsed (Urls (data_urls st @ [e])),
                               writes := Suc (writes w),
                               clock_reads := Suc (Suc (clock_reads w))\<rparr>)
         else (Errored EIO, st2, w\<lparr>writes := Suc (writes w), clock_reads := Suc (Suc (clock_reads w))\<rparr>))"
  using assms
  by (simp add: processUrl_found addUrl_initialized [OF assms(1) earliest_Some_Urls [OF assms(2)]]
      Let_def)

lemma processUrl_initialized_blocked:
  assumes "initialized st" and "processUrl ev st w u m = (RepostBlocked emb d, st', w')"
  shows "st' = st \<and> disk w' = disk w"
proof (cases "data st")
  case NoUrls
  from assms(2) show ?thesis by (simp add: processUrl_no_urls [OF assms(1) NoUrls])
next
  case (Urls es)
  show ?thesis
  proof (cases "earliest u es")
    case None
    from assms(2) show ?thesis
      by (simp add: processUrl_absent [OF assms(1) Urls None]
          addUrl_initialized [OF assms(1) Urls] Let_def split: if_splits)
  next
    case (Some h)
    then have e: "earliest u (data_urls st) = Some h" by (simp add: data_urls_Urls [OF Urls])
    show ?thesis
    proof (cases "above_threshold (post_age w h) (URL_REPOST_THRESHOLD_HOURS ev)")
      case True
      from assms(2) show ?thesis
        by (simp add: processUrl_expired [OF assms(1) e True] Let_def split: if_splits)
    next
      case False
      from processUrl_within(1,2) [OF assms(1) e False, of m] assms(2)
      show ?thesis by simp
    qed
  qed
qed

lemma processUrl_lazy_load:
  assumes "\<not> initialized st" and "disk w = Parsed d"
  shows "processUrl ev st w u m = processUrl ev \<lparr>data = d, initialized = True\<rparr> w u m"
  using assms
  by (simp add: processUrl_def UrlStore_findUrlHistory_def ensure_init_def UrlStore_init_def
      loadData_def readFile_def UrlStore_loaded)

lemma processUrl_new_store_blocked:
  assumes "\<not> initialized st" and "data st = Urls []"
    and "processUrl ev st w u m = (RepostBlocked emb d, st', w')"
  shows "disk w' = disk w \<and> disk w = Parsed (data st') \<and> initialized st'"
proof (cases "disk w")
  case (Parsed dd)
  from assms(3) have "processUrl ev \<lparr>data = dd, initialized = True\<rparr> w u m
      = (RepostBlocked emb d, st', w')"
    by (simp add: processUrl_lazy_load [OF assms(1) Parsed])
  from processUrl_initialized_blocked [OF _ this] Parsed show ?thesis by auto
next
  case NoFile
  from assms show ?thesis
    by (simp add: processUrl_def UrlStore_findUrlHistory_def ensure_init_def UrlStore_init_def
        loadData_def readFile_def saveData_def writeFile_def NoFile earliest_def first_elem_def
        UrlStore_addUrl_def Date_now_def Let_def split: if_splits)
next
  case Unreadable
  from assms show ?thesis
    by (simp add: processUrl_def UrlStore_findUrlHistory_def ensure_init_def UrlStore_init_def
        loadData_def readFile_def Unreadable)
next
  case Garbage
  from assms show ?thesis
    by (simp add: processUrl_def UrlStore_findUrlHistory_def ensure_init_def UrlStore_init_def
        loadData_def readFile_def Garbage)
qed

lemma length_process_each: "length (fst (process_each ev st w us m)) = length us"
proof (induction us arbitrary: st w)
  case Nil
  then show ?case by simp
next
  case (Cons u us)
  obtain oc st1 w1 where p: "processUrl ev st w u m = (oc, st1, w1)"
    by (cases "processUrl ev st w u m") auto
  obtain ocs st2 w2 where q: "process_each ev st1 w1 us m = (ocs, st2, w2)"
    by (cases "process_each ev st1 w1 us m") auto
  from Cons.IH [of st1 w1] q have "length ocs = length us" by simp
  then show ?case by (simp add: p q)
qed

lemma processUrl_write_fails:
  assumes "initialized st" and "data st = Urls es" and "\<not> write_ok w (writes w)"
    and "case earliest u es of None \<Rightarrow> True
         | Some h \<Rightarrow> above_threshold (post_age w h) (URL_REPOST_THRESHOLD_HOURS ev)"
  shows "fst (processUrl ev st w u m) = Errored EIO"
    and "disk (snd (snd (processUrl ev st w u m))) = disk w"
proof -
  note d = data_urls_Urls [OF assms(2)]
  show "fst (processUrl ev st w u m) = Errored EIO"
  proof (cases "earliest u es")
    case None
    then show ?thesis
      using assms(3)
      by (simp add: processUrl_absent [OF assms(1,2)] addUrl_initialized [OF assms(1,2)] Let_def)
  next
    case (Some h)
    with assms(4) have a: "above_threshold (post_age w h) (URL_REPOST_THRESHOLD_HOURS ev)" by simp
    from Some have "earliest u (data_urls st) = Some h" by (simp add: d)
    from processUrl_expired [OF assms(1) this a] assms(3) show ?thesis by (simp add: Let_def)
  qed
  show "disk (snd (snd (processUrl ev st w u m))) = disk w"
  proof (cases "earliest u es")
    case None
    then show ?thesis
      using assms(3)
      by (simp add: processUrl_absent [OF assms(1,2)] addUrl_initialized [OF assms(1,2)] Let_def)
  next
    case (Some h)
    with assms(4) have a: "above_threshold (post_age w h) (URL_REPOST_THRESHOLD_HOURS ev)" by simp
    from Some have "earliest u (data_urls st) = Some h" by (simp add: d)
    from processUrl_expired [OF assms(1) this a] assms(3) show ?thesis by (simp add: Let_def)
  qed
qed

text \<open>
  \<open>processUrl\<close> has its own \<open>try\<close>: every URL handed to it ends in one outcome, so
  \<open>handleMessage\<close> yields as many outcomes as the pattern has matches; a write that fails
  while a URL is added is the outcome of that URL, and the loop goes on.
\<close>

lemma handleMessage_one_outcome_per_match:
  "length (fst (process_each ev st w us m)) = length us
   \<and> (\<not> author_bot m \<and> take 1 (content m) \<noteq> ''!'' \<and> \<not> outside_main ev m \<longrightarrow>
        length (fst (handleMessage ev st w m)) = length (match_urlRegex (content m)))
   \<and> (initialized st \<and> data st = Urls es \<and> \<not> write_ok w (writes w)
        \<and> (case earliest u es of None \<Rightarrow> True
            | Some h \<Rightarrow> above_threshold (post_age w h) (URL_REPOST_THRESHOLD_HOURS ev)) \<longrightarrow>
        fst (processUrl ev st w u m) = Errored EIO
        \<and> disk (snd (snd (processUrl ev st w u m))) = disk w
        \<and> process_each ev st w (u # us) m =
            (case processUrl ev st w u m of
               (oc, st1, w1) \<Rightarrow>
                 (case process_each ev st1 w1 us m of
                    (ocs, st2, w2) \<Rightarrow> (Errored EIO # ocs, st2, w2))))"
proof -
  have "process_each ev st w (u # us) m =
            (case processUrl ev st w u m of
               (oc, st1, w1) \<Rightarrow>
                 (case process_each ev st1 w1 us m of
                    (ocs, st2, w2) \<Rightarrow> (Errored EIO # ocs, st2, w2)))"
    if "fst (processUrl ev st w u m) = Errored EIO"
    using that by (auto split: prod.splits)
  then show ?thesis
    using processUrl_write_fails [where st = st and w = w and u = u and ev = ev and m = m
        and es = es]
    by (simp add: length_process_each handleMessage_def)
qed

lemmas regex_defs = match_at_def after_scheme_def toLower_def word_boundary_def host_char_def
  tld_char_def path_char_def alnum_def word_char_def

lemma match_twice: "match_urlRegex ''https://a.io https://a.io'' = [''https://a.io'', ''https://a.io'']"
  by (simp add: regex_defs)

lemma match_two: "match_urlRegex ''https://a.io https://b.io'' = [''https://a.io'', ''https://b.io'']"
  by (simp add: regex_defs)

lemma loaded_or_empty_new: "loaded_or_empty UrlStore_new"
  by (simp add: loaded_or_empty_def UrlStore_new_def)

lemma loaded_or_empty_init:
  "loaded_or_empty st \<Longrightarrow> loaded_or_empty (fst (snd (UrlStore_init st w)))"
  by (cases "disk w")
     (auto simp: loaded_or_empty_def UrlStore_init_def loadData_def saveData_def readFile_def
       writeFile_def)

lemma loaded_or_empty_ensure_init:
  "loaded_or_empty st \<Longrightarrow> loaded_or_empty (fst (snd (ensure_init st w)))"
  by (simp add: ensure_init_def loaded_or_empty_init)

lemma ensure_init_Inr: "ensure_init st w = (Inr x, st1, w1) \<Longrightarrow> initialized st1"
  by (cases "disk w")
     (auto simp: ensure_init_def UrlStore_init_def loadData_def saveData_def readFile_def
       writeFile_def split: if_splits)

lemma loaded_or_empty_findUrlHistory:
  "loaded_or_empty st \<Longrightarrow> loaded_or_empty (fst (snd (UrlStore_findUrlHistory st w u)))"
  using loaded_or_empty_ensure_init [of st w]
  by (auto simp: UrlStore_findUrlHistory_def split: prod.splits sum.splits store_data.splits)

lemma loaded_or_empty_addUrl:
  "loaded_or_empty st \<Longrightarrow> loaded_or_empty (fst (snd (UrlStore_addUrl st w u uid cid tid)))"
  using loaded_or_empty_ensure_init [of st w]
  by (auto simp: UrlStore_addUrl_def Date_now_def saveData_def writeFile_def Let_def
      loaded_or_empty_def dest: ensure_init_Inr split: prod.splits sum.splits store_data.splits)

lemma findUrlHistory_Inr_initialized:
  "UrlStore_findUrlHistory st w u = (Inr r, st1, w1) \<Longrightarrow> initialized st1"
  by (auto simp: UrlStore_findUrlHistory_def dest: ensure_init_Inr
      split: prod.splits sum.splits store_data.splits)

lemma store_after_sum_case:
  "fst (snd (case x of (Inl e, s, w) \<Rightarrow> (f e, s, w) | (Inr y, s, w) \<Rightarrow> (g y, s, w)))
     = fst (snd x)"
  by (auto split: prod.splits sum.splits)

lemma store_after_cons_case:
  "fst (snd (case x of (ocs, y) \<Rightarrow> (oc # ocs, y))) = fst (snd x)"
  by (cases x) simp

lemma loaded_or_empty_processUrl:
  assumes "loaded_or_empty st"
  shows "loaded_or_empty (fst (snd (processUrl ev st w u m)))"
proof -
  obtain r st1 w1 where f: "UrlStore_findUrlHistory st w u = (r, st1, w1)"
    by (cases "UrlStore_findUrlHistory st w u") auto
  from loaded_or_empty_findUrlHistory [OF assms, of w u] f have s1: "loaded_or_empty st1" by simp
  show ?thesis
  proof (cases r)
    case (Inl e)
    with f s1 show ?thesis by (simp add: processUrl_def)
  next
    case (Inr h)
    with f have i: "initialized st1" by (auto dest: findUrlHistory_Inr_initialized)
    show ?thesis
    proof (cases h)
      case None
      with f Inr loaded_or_empty_addUrl [OF s1] show ?thesis
        by (simp add: processUrl_def store_after_sum_case)
    next
      case (Some x)
      with f Inr s1 loaded_or_empty_addUrl [OF s1] show ?thesis
        by (auto simp: processUrl_def getPostAgeHours_def Date_now_def discord_call_def Let_def
            store_after_sum_case split: bool.splits)
    qed
  qed
qed

lemma loaded_or_empty_process_each:
  "loaded_or_empty st \<Longrightarrow> loaded_or_empty (fst (snd (process_each ev st w us m)))"
proof (induction us arbitrary: st w)
  case Nil
  then show ?case by simp
next
  case (Cons u us)
  obtain oc st1 w1 where p: "processUrl ev st w u m = (oc, st1, w1)"
    by (cases "processUrl ev st w u m") auto
  with loaded_or_empty_processUrl [OF Cons.prems, of ev w u m] have "loaded_or_empty st1" by simp
  from Cons.IH [OF this, of w1] show ?case by (simp add: p store_after_cons_case)
qed

lemma loaded_or_empty_handleMessage:
  "loaded_or_empty st \<Longrightarrow> loaded_or_empty (fst (snd (handleMessage ev st w m)))"
  by (simp add: handleMessage_def loaded_or_empty_process_each)

section \<open>UrlStorage: trimming, entries and uniqueness\<close>

lemma dropWhile_fixed: "xs = [] \<or> \<not> P (hd xs) \<Longrightarrow> dropWhile P xs = xs"
  by (cases xs) auto

lemma dropWhile_result: "dropWhile P xs = [] \<or> \<not> P (hd (dropWhile P xs))"
  by (metis hd_dropWhile)

lemma trim_idem: "trim (trim s) = trim s"
proof -
  define t where "t = dropWhile js_whitespace s"
  define r where "r = dropWhile js_whitespace (rev t)"
  have tr: "trim s = rev r" by (simp add: trim_def t_def r_def)
  have r_ok: "r = [] \<or> \<not> js_whitespace (hd r)" unfolding r_def by (rule dropWhile_result)
  have t_ok: "t = [] \<or> \<not> js_whitespace (hd t)" unfolding t_def by (rule dropWhile_result)
  have "rev r = [] \<or> \<not> js_whitespace (hd (rev r))"
  proof (cases "r = []")
    case True then show ?thesis by simp
  next
    case False
    obtain p where p: "rev t = p @ r"
      unfolding r_def by (metis takeWhile_dropWhile_id)
    then have "t = rev r @ rev p" by (metis rev_append rev_rev_ident)
    with False have "hd (rev r) = hd t" by simp
    moreover have "t \<noteq> []" using p False by auto
    ultimately show ?thesis using t_ok by simp
  qed
  then have "dropWhile js_whitespace (rev r) = rev r" by (rule dropWhile_fixed)
  moreover have "dropWhile js_whitespace r = r" using r_ok by (rule dropWhile_fixed)
  ultimately show ?thesis by (simp add: tr) (simp add: trim_def)
qed

lemma find_Some_D: "find P xs = Some x \<Longrightarrow> x \<in> set xs \<and> P x"
  by (induction xs) (auto split: if_splits)

lemma isDuplicateUrl_iff:
  "isDuplicateUrl st u \<longleftrightarrow> (\<exists>e \<in> set (all_entries st). trim (url e) = trim u)"
  by (auto simp: isDuplicateUrl_def all_entries_def list_ex_iff case_prod_beta)

lemma find_in_channels_None:
  "find_in_channels t chans = None \<longleftrightarrow> (\<forall>e \<in> set (concat (map snd chans)). trim (url e) \<noteq> t)"
  by (induction t chans rule: find_in_channels.induct)
     (auto simp: find_None_iff split: option.splits dest: find_Some_D)

lemma find_in_channels_Some_D:
  "find_in_channels t chans = Some h \<Longrightarrow> \<exists>e \<in> set (concat (map snd chans)). trim (url e) = t"
  using find_in_channels_None [of t chans] by auto

lemma findUrlHistory_Some_D:
  assumes "UrlStorage_findUrlHistory st u = Some h"
  shows "isInitialized st" and "\<exists>e \<in> set (all_entries st). trim (url e) = trim u"
proof -
  from assms show i: "isInitialized st"
    by (auto simp: UrlStorage_findUrlHistory_def split: if_splits)
  with assms have "find_in_channels (trim u) (urls st) = Some h"
    by (simp add: UrlStorage_findUrlHistory_def)
  then show "\<exists>e \<in> set (all_entries st). trim (url e) = trim u"
    unfolding all_entries_def by (rule find_in_channels_Some_D)
qed

lemma remove_first_append:
  "remove_first P (xs @ ys) =
     (if list_ex P xs then remove_first P xs @ ys else xs @ remove_first P ys)"
  by (induction xs) auto

lemma remove_first_none: "\<not> list_ex P xs \<Longrightarrow> remove_first P xs = xs"
  by (induction xs) auto

lemma delete_in_channels_None:
  "delete_in_channels t chans = None \<longleftrightarrow> (\<forall>e \<in> set (concat (map snd chans)). trim (url e) \<noteq> t)"
  by (induction t chans rule: delete_in_channels.induct) (auto simp: list_ex_iff)

lemma delete_in_channels_Some:
  "delete_in_channels t chans = Some chans' \<Longrightarrow>
     concat (map snd chans') = remove_first (\<lambda>e. trim (url e) = t) (concat (map snd chans))
     \<and> map fst chans' = map fst chans"
  by (induction t chans arbitrary: chans' rule: delete_in_channels.induct)
     (auto simp: remove_first_append split: if_splits)

lemma length_remove_first:
  "list_ex P xs \<Longrightarrow> Suc (length (remove_first P xs)) = length xs"
  by (induction xs) auto

lemma mset_remove_first: "mset (remove_first P xs) \<subseteq># mset xs"
  by (induction xs) (auto intro: subset_mset.order_trans)

lemma remove_first_unique:
  "distinct (map f xs) \<Longrightarrow> \<forall>x \<in> set (remove_first (\<lambda>x. f x = t) xs). f x \<noteq> t"
proof (induction xs)
  case Nil
  then show ?case by simp
next
  case (Cons a xs)
  show ?case
  proof (cases "f a = t")
    case True
    with Cons.prems have "\<forall>x \<in> set xs. f x \<noteq> t" by (auto simp: image_iff)
    with True show ?thesis by simp
  next
    case False
    with Cons show ?thesis by simp
  qed
qed

lemma distinct_map_remove_first:
  "distinct (map f xs) \<Longrightarrow> distinct (map f (remove_first P xs))"
proof (induction xs)
  case Nil then show ?case by simp
next
  case (Cons x xs)
  have "set (remove_first P xs) \<subseteq> set xs"
    by (metis mset_remove_first set_mset_mono set_mset_mset)
  with Cons show ?case by auto
qed

lemma mset_concat_update:
  assumes "mset v = mset (case map_of al k of None \<Rightarrow> [] | Some us \<Rightarrow> us) + A"
  shows "mset (concat (map snd (AList.update k v al))) = mset (concat (map snd al)) + A"
  using assms by (induction al) auto

lemma UrlStorage_addUrl_fresh:
  assumes "isInitialized st" and "\<not> isDuplicateUrl st u"
  shows "UrlStorage_addUrl st w u uid cid tid mid murl =
     (let e = stored_entry u uid cid tid mid murl (clock w (clock_reads w));
          st1 = with_entry st cid e
      in if write_ok w (writes w)
         then (Some e, st1, w\<lparr>disk := Parsed (Object_fromEntries (urls st1)),
                               writes := Suc (writes w), clock_reads := Suc (clock_reads w)\<rparr>)
         else (None, st1, w\<lparr>writes := Suc (writes w), clock_reads := Suc (clock_reads w)\<rparr>))"
proof -
  have d: "\<not> isDuplicateUrl st (trim u)"
    using assms(2) by (simp add: isDuplicateUrl_iff trim_idem)
  show ?thesis
    using assms(1) d
    by (simp add: UrlStorage_addUrl_def saveUrls_def Date_now_def persist_def writeFile_def
        stored_entry_def with_entry_def trim_idem Let_def)
qed

lemma UrlStorage_addUrl_skip:
  assumes "\<not> isInitialized st \<or> isDuplicateUrl st u"
  shows "UrlStorage_addUrl st w u uid cid tid mid murl = (None, st, w)"
proof -
  have "isDuplicateUrl st (trim u) = isDuplicateUrl st u"
    by (simp add: isDuplicateUrl_iff trim_idem)
  then show ?thesis using assms by (auto simp: UrlStorage_addUrl_def Let_def)
qed

lemma mset_all_entries_with_entry:
  "mset (all_entries (with_entry st cid e)) = mset (all_entries st) + {#e#}"
  unfolding all_entries_def with_entry_def
  by (simp add: mset_concat_update [where A = "{#e#}"])

lemma distinct_map_mset_cong:
  "mset xs = mset ys \<Longrightarrow> distinct (map f xs) = distinct (map f ys)"
  by (metis mset_eq_imp_distinct_iff mset_map)

lemma one_per_url_with_entry:
  assumes "one_per_url st" and "\<not> isDuplicateUrl st (url e)"
  shows "one_per_url (with_entry st cid e)"
proof -
  have "mset (all_entries (with_entry st cid e)) = mset (e # all_entries st)"
    by (simp add: mset_all_entries_with_entry)
  then have "one_per_url (with_entry st cid e)
      = distinct (map (\<lambda>e. trim (url e)) (e # all_entries st))"
    unfolding one_per_url_def by (rule distinct_map_mset_cong)
  then show ?thesis
    using assms by (auto simp: one_per_url_def isDuplicateUrl_iff)
qed

lemma one_per_url_addUrl:
  assumes "one_per_url st"
  shows "one_per_url (fst (snd (UrlStorage_addUrl st w u uid cid tid mid murl)))"
proof (cases "\<not> isInitialized st \<or> isDuplicateUrl st u")
  case True
  then show ?thesis using assms by (simp add: UrlStorage_addUrl_skip)
next
  case False
  then have i: "isInitialized st" and d: "\<not> isDuplicateUrl st u" by simp_all
  have "\<not> isDuplicateUrl st (url (stored_entry u uid cid tid mid murl (clock w (clock_reads w))))"
    using d by (simp add: stored_entry_def isDuplicateUrl_iff trim_idem)
  from one_per_url_with_entry [OF assms this]
  show ?thesis by (simp add: UrlStorage_addUrl_fresh [OF i d] Let_def)
qed

lemma one_per_url_deleteUrl:
  assumes "one_per_url st"
  shows "one_per_url (fst (snd (UrlStorage_deleteUrl st w u)))"
  using assms
  by (auto simp: UrlStorage_deleteUrl_def one_per_url_def all_entries_def Let_def
      distinct_map_remove_first dest!: delete_in_channels_Some split: option.splits prod.splits bool.splits)

lemma one_per_url_apply_op: "one_per_url st \<Longrightarrow> one_per_url (fst (apply_op st w op))"
  by (cases op) (simp_all add: one_per_url_addUrl one_per_url_deleteUrl)

lemma one_per_url_run_ops: "one_per_url st \<Longrightarrow> one_per_url (fst (run_ops st w ops))"
proof (induction ops arbitrary: st w)
  case Nil
  then show ?case by simp
next
  case (Cons op ops)
  obtain st1 w1 where a: "apply_op st w op = (st1, w1)" by (cases "apply_op st w op")
  with Cons.prems one_per_url_apply_op [of st w op] have "one_per_url st1" by simp
  then show ?case using a Cons.IH by simp
qed

lemma UrlStorage_deleteUrl_found:
  assumes "isInitialized st" and "\<exists>e \<in> set (all_entries st). trim (url e) = trim u"
  shows "\<exists>st1. all_entries st1 = remove_first (\<lambda>e. trim (url e) = trim u) (all_entries st)
           \<and> map fst (urls st1) = map fst (urls st) \<and> isInitialized st1
           \<and> UrlStorage_deleteUrl st w u =
               (if write_ok w (writes w)
                then (Inr True, st1, w\<lparr>disk := Parsed (Object_fromEntries (urls st1)),
                                         writes := Suc (writes w)\<rparr>)
                else (Inl EIO, st1, w\<lparr>writes := Suc (writes w)\<rparr>))"
proof -
  from assms(2) have "delete_in_channels (trim u) (urls st) \<noteq> None"
    by (simp add: delete_in_channels_None all_entries_def)
  then obtain urls' where d: "delete_in_channels (trim u) (urls st) = Some urls'" by auto
  from delete_in_channels_Some [OF d]
  have "all_entries (st\<lparr>urls := urls'\<rparr>) = remove_first (\<lambda>e. trim (url e) = trim u) (all_entries st)"
    and "map fst (urls (st\<lparr>urls := urls'\<rparr>)) = map fst (urls st)"
    by (simp_all add: all_entries_def)
  moreover have "UrlStorage_deleteUrl st w u =
               (if write_ok w (writes w)
                then (Inr True, st\<lparr>urls := urls'\<rparr>,
                      w\<lparr>disk := Parsed (Object_fromEntries (urls (st\<lparr>urls := urls'\<rparr>))),
                        writes := Suc (writes w)\<rparr>)
                else (Inl EIO, st\<lparr>urls := urls'\<rparr>, w\<lparr>writes := Suc (writes w)\<rparr>))"
    using assms(1) d by (simp add: UrlStorage_deleteUrl_def persist_def writeFile_def Let_def)
  moreover have "isInitialized (st\<lparr>urls := urls'\<rparr>)" using assms(1) by simp
  ultimately show ?thesis by blast
qed

section \<open>UrlStorage: the file\<close>

lemma map_of_insert_index:
  "k \<notin> fst ` set ob \<Longrightarrow> map_of (insert_index k v ob) = (map_of ob)(k \<mapsto> v)"
  by (induction ob) (auto simp: fun_eq_iff)

lemma keys_insert_index: "set (map fst (insert_index k v ob)) = insert k (set (map fst ob))"
  by (induction ob) auto

lemma distinct_insert_index:
  "k \<notin> fst ` set ob \<Longrightarrow> distinct (map fst ob) \<Longrightarrow> distinct (map fst (insert_index k v ob))"
proof (induction ob)
  case Nil
  then show ?case by simp
next
  case (Cons p ob)
  then show ?case using keys_insert_index [of k v ob] by auto
qed

lemma update_new_key: "k \<notin> fst ` set al \<Longrightarrow> AList.update k v al = al @ [(k, v)]"
  by (induction al) auto

lemma map_of_obj_put: "map_of (obj_put k v ob) = (map_of ob)(k \<mapsto> v)"
proof -
  have "map_of (ob @ [(k, v)]) = (map_of ob)(k \<mapsto> v)" if "k \<notin> fst ` set ob"
  proof -
    from that have "map_of ob k = None" by (simp add: map_of_eq_None_iff)
    then show ?thesis by (auto simp: fun_eq_iff map_add_def split: option.splits)
  qed
  then show ?thesis
    by (simp add: obj_put_def update_conv' map_of_insert_index)
qed

lemma distinct_obj_put: "distinct (map fst ob) \<Longrightarrow> distinct (map fst (obj_put k v ob))"
  by (auto simp: obj_put_def distinct_update distinct_insert_index)

lemma map_of_foldl_obj_put:
  "map_of (foldl (\<lambda>ob (k, v). obj_put k v ob) acc es) = map_of acc ++ map_of (rev es)"
proof (induction es arbitrary: acc)
  case Nil
  then show ?case by simp
next
  case (Cons p es)
  obtain k v where p: "p = (k, v)" by (cases p)
  show ?case
    by (simp add: p Cons.IH map_of_obj_put fun_eq_iff map_add_def split: option.splits)
qed

lemma distinct_foldl_obj_put:
  "distinct (map fst acc) \<Longrightarrow> distinct (map fst (foldl (\<lambda>ob (k, v). obj_put k v ob) acc es))"
  by (induction es arbitrary: acc) (auto simp: distinct_obj_put)

lemma map_of_rev_distinct: "distinct (map fst es) \<Longrightarrow> map_of (rev es) = map_of es"
  by (subst map_of_inject_set) (simp_all add: rev_map [symmetric])

lemma map_of_Object_fromEntries:
  "distinct (map fst es) \<Longrightarrow> map_of (Object_fromEntries es) = map_of es"
  by (simp add: Object_fromEntries_def map_of_foldl_obj_put map_of_rev_distinct)

lemma distinct_Object_fromEntries: "distinct (map fst (Object_fromEntries es))"
  by (simp add: Object_fromEntries_def distinct_foldl_obj_put)

lemma foldl_obj_put_plain:
  "distinct (map fst (acc @ es)) \<Longrightarrow> \<forall>k \<in> set (map fst es). \<not> array_index k \<Longrightarrow>
     foldl (\<lambda>ob (k, v). obj_put k v ob) acc es = acc @ es"
proof (induction es arbitrary: acc)
  case Nil
  then show ?case by simp
next
  case (Cons p es)
  obtain k v where p: "p = (k, v)" by (cases p)
  have "obj_put k v acc = acc @ [(k, v)]"
    using Cons.prems by (auto simp: obj_put_def p)
  moreover have "distinct (map fst ((acc @ [(k, v)]) @ es))"
    using Cons.prems by (simp add: p)
  ultimately show ?case using Cons.IH [of "acc @ [(k, v)]"] Cons.prems by (simp add: p)
qed

lemma Object_fromEntries_plain:
  "distinct (map fst es) \<Longrightarrow> \<forall>k \<in> set (map fst es). \<not> array_index k \<Longrightarrow>
     Object_fromEntries es = es"
  using foldl_obj_put_plain [of "[]" es] by (simp add: Object_fromEntries_def)

lemma foldl_update_fresh:
  "distinct (map fst (acc @ d)) \<Longrightarrow>
     foldl (\<lambda>mp (chan, us). AList.update chan us mp) acc d = acc @ d"
proof (induction d arbitrary: acc)
  case Nil
  then show ?case by simp
next
  case (Cons p d)
  obtain k v where p: "p = (k, v)" by (cases p)
  have "AList.update k v acc = acc @ [(k, v)]"
    using Cons.prems by (intro update_new_key) (auto simp: p)
  moreover have "distinct (map fst ((acc @ [(k, v)]) @ d))"
    using Cons.prems by (simp add: p)
  ultimately show ?case using Cons.IH [of "acc @ [(k, v)]"] by (simp add: p)
qed

lemma UrlStorage_init_fresh:
  assumes "MAIN_CHANNEL_ID ev = Some c" and "c \<noteq> []" and "disk w = Parsed d"
    and "distinct (map fst d)"
  shows "UrlStorage_init ev UrlStorage_new w = \<lparr>urls = d, isInitialized = True\<rparr>"
  using assms foldl_update_fresh [of "[]" d]
  by (simp add: UrlStorage_init_def UrlStorage_new_def)

section \<open>handleUrlMessage\<close>

lemma handleUrl_rejected:
  assumes "UrlStorage_findUrlHistory st u = Some h"
    and "fetch_channel w (channelId h) = Resolved"
    and "fetch_message w (channelId h) (messageId h) = Rejected r"
  shows "handleUrl st w m u =
     (case UrlStorage_deleteUrl st w u of
        (Inl e, st1, w1) \<Rightarrow> (Thrown e, st1, w1)
      | (Inr _, st1, w1) \<Rightarrow> addNewUrlEntry st1 w1 m u)"
  using assms
  by (simp add: handleUrl_def originalMessageExists_def split: prod.splits sum.splits)

lemma handleUrl_blocked_unchanged:
  assumes "handleUrl st w m u = (r, st', w')"
    and "r = NotifiedOtherUser \<or> r = SameUserSameChannel \<or> r = Thrown ReferenceError"
  shows "st' = st \<and> disk w' = disk w"
  using assms
  by (auto simp: handleUrl_def originalMessageExists_def addNewUrlEntry_def notify_def
      discord_call_def UrlStorage_deleteUrl_def persist_def writeFile_def Let_def
      split: option.splits fetched.splits prod.splits sum.splits bool.splits if_splits)

lemma handleUrl_before_blocked_unchanged:
  assumes "handleUrl_before st w m u = (r, st', w')"
    and "r = OtherAuthor \<or> r = OtherThread \<or> r = SameThread"
  shows "st' = st \<and> disk w' = disk w"
  using assms
  by (auto simp: handleUrl_before_def reply_with_def discord_call_def
      split: option.splits fetched.splits prod.splits sum.splits bool.splits if_splits)

lemma handleUrl_rejected_readded:
  assumes f: "UrlStorage_findUrlHistory st u = Some h"
    and c: "fetch_channel w (channelId h) = Resolved"
    and r: "fetch_message w (channelId h) (messageId h) = Rejected r"
    and o: "one_per_url st" and w0: "write_ok w (writes w)" and w1: "write_ok w (Suc (writes w))"
    and g: "guild_id m = Some gid"
  shows "\<exists>e. fst (handleUrl st w m u) = NewEntry (Some e)
           \<and> userId e = Some (author_id m) \<and> url e = trim u
           \<and> timestamp e = clock w (clock_reads w)
           \<and> mset (all_entries (fst (snd (handleUrl st w m u))))
               = mset (remove_first (\<lambda>e. trim (url e) = trim u) (all_entries st)) + {#e#}"
proof -
  note fd = findUrlHistory_Some_D [OF f]
  from UrlStorage_deleteUrl_found [OF fd, of w] w0
  obtain st1 where st1: "all_entries st1 = remove_first (\<lambda>e. trim (url e) = trim u) (all_entries st)"
    and i1: "isInitialized st1"
    and d: "UrlStorage_deleteUrl st w u
              = (Inr True, st1, w\<lparr>disk := Parsed (Object_fromEntries (urls st1)),
                                    writes := Suc (writes w)\<rparr>)"
    by auto
  let ?w1 = "w\<lparr>disk := Parsed (Object_fromEntries (urls st1)), writes := Suc (writes w)\<rparr>"
  have nd: "\<not> isDuplicateUrl st1 u"
    using o remove_first_unique [of "\<lambda>e. trim (url e)" "all_entries st" "trim u"]
    by (simp add: isDuplicateUrl_iff st1 one_per_url_def)
  let ?e = "stored_entry u (author_id m) (msg_channelId m) (thread_of m) (Some (msg_id m))
      (Some (''https://discord.com/channels/'' @ gid @ ''/'' @ msg_channelId m @ ''/'' @ msg_id m))
      (clock w (clock_reads w))"
  have h: "handleUrl st w m u = addNewUrlEntry st1 ?w1 m u"
    by (simp add: handleUrl_rejected [OF f c r] d)
  have a: "fst (addNewUrlEntry st1 ?w1 m u) = NewEntry (Some ?e)"
    and b: "fst (snd (addNewUrlEntry st1 ?w1 m u)) = with_entry st1 (msg_channelId m) ?e"
    using w1 by (simp_all add: addNewUrlEntry_def g UrlStorage_addUrl_fresh [OF i1 nd] Let_def)
  show ?thesis
    by (rule exI [of _ ?e])
       (simp add: h a b mset_all_entries_with_entry st1 stored_entry_def)
qed

section \<open>The duplicate filter of fetchAllUrlsFromChannel\<close>

text \<open>
  The filter keeps exactly the first entry of every URL, in the order of first appearance:
  the URLs of the result are distinct and are the URLs of the input.
\<close>

lemma findIndex_takeWhile:
  "findIndex P xs = (if list_ex P xs then int (length (takeWhile (\<lambda>x. \<not> P x) xs)) else - 1)"
  by (induction xs) (auto simp: Let_def)

lemma takeWhile_full_length:
  "length (takeWhile Q ps) = length ps \<longleftrightarrow> (\<forall>p \<in> set ps. Q p)"
proof
  assume "length (takeWhile Q ps) = length ps"
  then have "takeWhile Q ps = ps"
    by (metis takeWhile_dropWhile_id append_eq_conv_conj append_Nil2 length_0_conv
        length_append add_diff_cancel_left' diff_self_eq_0 length_drop)
  then show "\<forall>p \<in> set ps. Q p" by (simp add: takeWhile_eq_all_conv)
next
  assume "\<forall>p \<in> set ps. Q p"
  then show "length (takeWhile Q ps) = length ps" by (simp add: takeWhile_eq_all_conv [THEN iffD2])
qed

lemma findIndex_first_occurrence:
  "int (length ps) = findIndex (\<lambda>t. url t = url x) (ps @ x # xs) \<longleftrightarrow> url x \<notin> url ` set ps"
proof (cases "\<forall>p \<in> set ps. url p \<noteq> url x")
  case True
  then have "takeWhile (\<lambda>t. url t \<noteq> url x) (ps @ x # xs) = ps"
    by (simp add: takeWhile_append2)
  with True show ?thesis by (auto simp: findIndex_takeWhile)
next
  case False
  then obtain p where p: "p \<in> set ps" "url p = url x" by auto
  then have "takeWhile (\<lambda>t. url t \<noteq> url x) (ps @ x # xs) = takeWhile (\<lambda>t. url t \<noteq> url x) ps"
    by (simp add: takeWhile_append1)
  moreover have "length (takeWhile (\<lambda>t. url t \<noteq> url x) ps) \<noteq> length ps"
    using p by (auto simp: takeWhile_full_length)
  moreover have "url x \<in> url ` set ps" using p by (metis imageI)
  ultimately show ?thesis by (simp add: findIndex_takeWhile)
qed

lemma unique_urls_from:
  "map snd (filter (\<lambda>(index, e). int index = findIndex (\<lambda>t. url t = url e) (ps @ xs))
              (enumerate (length ps) xs))
     = keep_first (url ` set ps) xs"
proof (induction xs arbitrary: ps)
  case Nil
  then show ?case by simp
next
  case (Cons x xs)
  have "map snd (filter (\<lambda>(index, e). int index = findIndex (\<lambda>t. url t = url e) ((ps @ [x]) @ xs))
              (enumerate (length (ps @ [x])) xs))
     = keep_first (url ` set (ps @ [x])) xs"
    by (rule Cons.IH)
  then have ih: "map snd (filter (\<lambda>(index, e). int index = findIndex (\<lambda>t. url t = url e) (ps @ x # xs))
              (enumerate (Suc (length ps)) xs))
     = keep_first (insert (url x) (url ` set ps)) xs"
    by simp
  show ?case
    by (simp add: findIndex_first_occurrence ih insert_absorb)
qed

lemma unique_urls_keep_first: "unique_urls xs = keep_first {} xs"
  using unique_urls_from [of "[]" xs] by (simp add: unique_urls_def)

lemma keep_first_urls:
  "distinct (map url (keep_first seen es)) \<and> url ` set (keep_first seen es) = url ` set es - seen"
  by (induction es arbitrary: seen) auto

lemma unique_urls_distinct:
  "distinct (map url (unique_urls xs)) \<and> url ` set (unique_urls xs) = url ` set xs"
  using keep_first_urls [of "{}" xs] by (simp add: unique_urls_keep_first)

section \<open>The scenarios, evaluated\<close>

lemma scenario_expired:
  "processUrl config
     \<lparr>data = Urls [entry_at ''https://a.io'' ''alice'' ''c1'' 0], initialized = True\<rparr>
     (quiet_world (Parsed (Urls [entry_at ''https://a.io'' ''alice'' ''c1'' 0])) (36 * hour))
     ''https://a.io'' (post ''bob'' ''c1'' ''see https://a.io'')
   = (RepostAllowed,
      \<lparr>data = Urls [entry_at ''https://a.io'' ''alice'' ''c1'' 0,
                    entry_at ''https://a.io'' ''bob'' ''c1'' (36 * hour)], initialized = True\<rparr>,
      (quiet_world (Parsed (Urls [entry_at ''https://a.io'' ''alice'' ''c1'' 0,
                            entry_at ''https://a.io'' ''bob'' ''c1'' (36 * hour)])) (36 * hour))
        \<lparr>writes := 1, clock_reads := 2\<rparr>)"
proof -
  let ?e = "entry_at ''https://a.io'' ''alice'' ''c1'' 0"
  let ?st = "\<lparr>data = Urls [?e], initialized = True\<rparr>"
  let ?w = "quiet_world (Parsed (Urls [?e])) (36 * hour)"
  have i: "initialized ?st" by simp
  have e: "earliest ''https://a.io'' (data_urls ?st) = Some ?e"
    by (simp add: data_urls_literal earliest_def first_elem_def entry_at_def)
  have a: "above_threshold (post_age ?w ?e) (URL_REPOST_THRESHOLD_HOURS config)"
    by (simp add: above_threshold_def post_age_def quiet_world_def entry_at_def hour_def config_def)
  show ?thesis
    apply (subst processUrl_expired [OF i e a])
    apply (simp add: data_urls_def quiet_world_def posting_def post_def entry_at_def thread_of_def
        Let_def)
    done
qed

lemma scenario_blocked:
  "processUrl config
     \<lparr>data = Urls [entry_at ''https://a.io'' ''alice'' ''c1'' 0], initialized = True\<rparr>
     (quiet_world (Parsed (Urls [entry_at ''https://a.io'' ''alice'' ''c1'' 0])) (12 * hour))
     ''https://a.io'' (post ''alice'' ''c1'' ''see https://a.io'')
   = (RepostBlocked \<lparr>isSameUser = True, posted_hours_ago = 12, time_remaining = Some 12\<rparr> True,
      \<lparr>data = Urls [entry_at ''https://a.io'' ''alice'' ''c1'' 0], initialized = True\<rparr>,
      (quiet_world (Parsed (Urls [entry_at ''https://a.io'' ''alice'' ''c1'' 0])) (12 * hour))
        \<lparr>clock_reads := 1, discord_calls := 2\<rparr>)"
proof -
  let ?e = "entry_at ''https://a.io'' ''alice'' ''c1'' 0"
  let ?st = "\<lparr>data = Urls [?e], initialized = True\<rparr>"
  let ?w = "quiet_world (Parsed (Urls [?e])) (12 * hour)"
  have i: "initialized ?st" by simp
  have e: "earliest ''https://a.io'' (data_urls ?st) = Some ?e"
    by (simp add: data_urls_literal earliest_def first_elem_def entry_at_def)
  have a: "post_age ?w ?e = 12"
    by (simp add: post_age_def quiet_world_def entry_at_def hour_def)
  show ?thesis
    apply (subst processUrl_found [OF i e])
    apply (simp add: a above_threshold_def createRepostEmbed_def config_def)
    apply (simp add: discord_call_def quiet_world_def post_def entry_at_def)
    done
qed

lemma scenario_before_lookup:
  "UrlStorage_findUrlHistory
     \<lparr>urls = [(''c1'', [synced_by ''https://a.io'' ''alice'' 3])], isInitialized = True\<rparr>
     ''https://a.io''
   = Some ((synced_by ''https://a.io'' ''alice'' 3)\<lparr>channelId := Some ''c1''\<rparr>)"
  by (simp add: UrlStorage_findUrlHistory_def synced_by_def trim_def js_whitespace_def)

lemma scenario_before_other_author:
  "handleUrl_before
     \<lparr>urls = [(''c1'', [synced_by ''https://a.io'' ''alice'' 3])], isInitialized = True\<rparr>
     (storage_scene NoFile 9 True Resolved) (post ''bob'' ''c1'' ''see https://a.io'') ''https://a.io''
   = (OtherAuthor,
      \<lparr>urls = [(''c1'', [synced_by ''https://a.io'' ''alice'' 3])], isInitialized = True\<rparr>,
      (storage_scene NoFile 9 True Resolved)\<lparr>discord_calls := 1\<rparr>)"
  by (simp add: handleUrl_before_def scenario_before_lookup reply_with_def)
     (simp add: synced_by_def post_def discord_call_def storage_scene_def)

lemma scenario_before_delete:
  "UrlStorage_deleteUrl
     \<lparr>urls = [(''c1'', [synced_by ''https://a.io'' ''alice'' 3])], isInitialized = True\<rparr>
     (storage_scene NoFile 9 True fm) ''https://a.io''
   = (Inr True, \<lparr>urls = [(''c1'', [])], isInitialized = True\<rparr>,
      (storage_scene (Parsed [(''c1'', [])]) 9 True fm)\<lparr>writes := 1\<rparr>)"
  by (simp add: UrlStorage_deleteUrl_def persist_def writeFile_def Object_fromEntries_def
      obj_put_def array_index_def digit_def synced_by_def trim_def
      js_whitespace_def storage_scene_def Let_def)

lemma scenario_other_user:
  "handleUrl \<lparr>urls = [(''c1'', [posted_by ''https://a.io'' ''alice'' ''c1'' ''m0'' 3])], isInitialized = True\<rparr>
     (storage_scene NoFile 9 True Resolved) (post ''bob'' ''c1'' ''see https://a.io'') ''https://a.io''
   = (NotifiedOtherUser,
      \<lparr>urls = [(''c1'', [posted_by ''https://a.io'' ''alice'' ''c1'' ''m0'' 3])], isInitialized = True\<rparr>,
      (storage_scene NoFile 9 True Resolved)\<lparr>discord_calls := 1\<rparr>)"
  by (simp add: handleUrl_def UrlStorage_findUrlHistory_def originalMessageExists_def notify_def
      discord_call_def storage_scene_def posted_by_def stored_entry_def post_def trim_def
      js_whitespace_def)

lemma scenario_other_channel:
  "handleUrl \<lparr>urls = [(''c1'', [posted_by ''https://a.io'' ''alice'' ''c1'' ''m0'' 3])], isInitialized = True\<rparr>
     (storage_scene NoFile 9 True Resolved) (post ''alice'' ''c2'' ''see https://a.io'') ''https://a.io''
   = (Thrown ReferenceError,
      \<lparr>urls = [(''c1'', [posted_by ''https://a.io'' ''alice'' ''c1'' ''m0'' 3])], isInitialized = True\<rparr>,
      storage_scene NoFile 9 True Resolved)"
  by (simp add: handleUrl_def UrlStorage_findUrlHistory_def originalMessageExists_def
      storage_scene_def posted_by_def stored_entry_def post_def trim_def js_whitespace_def)

lemma scenario_lookup:
  "UrlStorage_findUrlHistory
     \<lparr>urls = [(''c1'', [posted_by ''https://a.io'' ''alice'' ''c1'' ''m0'' 3])], isInitialized = True\<rparr>
     ''https://a.io''
   = Some (posted_by ''https://a.io'' ''alice'' ''c1'' ''m0'' 3)"
  by (simp add: UrlStorage_findUrlHistory_def posted_by_def stored_entry_def trim_def
      js_whitespace_def)

lemma scenario_delete:
  "UrlStorage_deleteUrl
     \<lparr>urls = [(''c1'', [posted_by ''https://a.io'' ''alice'' ''c1'' ''m0'' 3])], isInitialized = True\<rparr>
     (storage_scene NoFile 9 ok fm) ''https://a.io''
   = (if ok then Inr True else Inl EIO,
      \<lparr>urls = [(''c1'', [])], isInitialized = True\<rparr>,
      (storage_scene (if ok then Parsed [(''c1'', [])] else NoFile) 9 ok fm)\<lparr>writes := 1\<rparr>)"
  by (simp add: UrlStorage_deleteUrl_def persist_def writeFile_def Object_fromEntries_def
      obj_put_def array_index_def digit_def posted_by_def stored_entry_def trim_def
      js_whitespace_def storage_scene_def Let_def)

lemma scenario_unavailable:
  "handleUrl
     \<lparr>urls = [(''c1'', [posted_by ''https://a.io'' ''alice'' ''c1'' ''m0'' 3])], isInitialized = True\<rparr>
     (storage_scene NoFile 9 True (Rejected Unavailable))
     (post ''bob'' ''c1'' ''see https://a.io'') ''https://a.io''
   = (NewEntry (Some (posted_by ''https://a.io'' ''bob'' ''c1'' ''m1'' 9)),
      \<lparr>urls = [(''c1'', [posted_by ''https://a.io'' ''bob'' ''c1'' ''m1'' 9])], isInitialized = True\<rparr>,
      (storage_scene (Parsed [(''c1'', [posted_by ''https://a.io'' ''bob'' ''c1'' ''m1'' 9])]) 9 True
         (Rejected Unavailable))\<lparr>writes := 2, clock_reads := 1\<rparr>)"
proof -
  let ?st1 = "\<lparr>urls = [(''c1'', [])], isInitialized = True\<rparr>"
  let ?w1 = "(storage_scene (Parsed [(''c1'', [])]) 9 True (Rejected Unavailable))\<lparr>writes := 1\<rparr>"
  have i: "isInitialized ?st1" by simp
  have nd: "\<not> isDuplicateUrl ?st1 ''https://a.io''" by (simp add: isDuplicateUrl_def)
  have c: "fetch_channel (storage_scene NoFile 9 True (Rejected Unavailable))
             (channelId (posted_by ''https://a.io'' ''alice'' ''c1'' ''m0'' 3)) = Resolved"
    and r: "fetch_message (storage_scene NoFile 9 True (Rejected Unavailable))
             (channelId (posted_by ''https://a.io'' ''alice'' ''c1'' ''m0'' 3))
             (messageId (posted_by ''https://a.io'' ''alice'' ''c1'' ''m0'' 3)) = Rejected Unavailable"
    by (simp_all add: storage_scene_def)
  have t: "trim ''https://a.io'' = ''https://a.io''" by (simp add: trim_def js_whitespace_def)
  show ?thesis
    apply (subst handleUrl_rejected [OF scenario_lookup c r])
    apply (simp add: scenario_delete addNewUrlEntry_def post_def)
    apply (subst UrlStorage_addUrl_fresh [OF i nd])
    apply (simp add: Let_def with_entry_def storage_scene_def thread_of_def)
    apply (simp add: posted_by_def stored_entry_def t Object_fromEntries_def obj_put_def
        array_index_def digit_def)
    done
qed

lemma scenario_write_fails:
  "handleMessage config \<lparr>data = Urls [], initialized = True\<rparr>
     ((quiet_world (Parsed (Urls [])) 5)\<lparr>write_ok := (\<lambda>k. k \<noteq> 0)\<rparr>)
     (post ''alice'' ''c1'' ''https://a.io https://b.io'')
   = ([Errored EIO, FirstPost],
      \<lparr>data = Urls [entry_at ''https://a.io'' ''alice'' ''c1'' 5,
                    entry_at ''https://b.io'' ''alice'' ''c1'' 5], initialized = True\<rparr>,
      (quiet_world (Parsed (Urls [entry_at ''https://a.io'' ''alice'' ''c1'' 5,
                            entry_at ''https://b.io'' ''alice'' ''c1'' 5])) 5)
        \<lparr>write_ok := (\<lambda>k. k \<noteq> 0), writes := 2, clock_reads := 2\<rparr>)"
proof -
  let ?m = "post ''alice'' ''c1'' ''https://a.io https://b.io''"
  let ?st = "\<lparr>data = Urls [], initialized = True\<rparr>"
  let ?w = "(quiet_world (Parsed (Urls [])) 5)\<lparr>write_ok := (\<lambda>k. k \<noteq> 0)\<rparr>"
  let ?st1 = "\<lparr>data = Urls [entry_at ''https://a.io'' ''alice'' ''c1'' 5], initialized = True\<rparr>"
  let ?w1 = "(quiet_world (Parsed (Urls [])) 5)\<lparr>write_ok := (\<lambda>k. k \<noteq> 0), writes := 1, clock_reads := 1\<rparr>"
  have g: "\<not> author_bot ?m" "take 1 (content ?m) \<noteq> ''!''" "\<not> outside_main config ?m"
    by (simp_all add: post_def outside_main_def config_def)
  have mm: "match_urlRegex (content ?m) = [''https://a.io'', ''https://b.io'']"
    by (simp only: post_def message.select_convs match_two)
  have p: "posting u ?m t = entry_at u ''alice'' ''c1'' t" for u t
    by (simp add: posting_def entry_at_def post_def thread_of_def)
  have i: "initialized ?st" "initialized ?st1" by simp_all
  have d: "data ?st = Urls []"
    and d1: "data ?st1 = Urls [entry_at ''https://a.io'' ''alice'' ''c1'' 5]" by simp_all
  have e: "earliest ''https://a.io'' [] = None"
    by (simp add: earliest_def first_elem_def)
  have e1: "earliest ''https://b.io'' [entry_at ''https://a.io'' ''alice'' ''c1'' 5] = None"
    by (simp add: earliest_other entry_at_def)
  have s1: "processUrl config ?st ?w ''https://a.io'' ?m = (Errored EIO, ?st1, ?w1)"
    apply (subst processUrl_absent [OF i(1) d e])
    apply (subst addUrl_initialized [OF i(1) d])
    apply (simp add: Let_def p quiet_world_def)
    done
  have s2: "processUrl config ?st1 ?w1 ''https://b.io'' ?m
      = (FirstPost,
         \<lparr>data = Urls [entry_at ''https://a.io'' ''alice'' ''c1'' 5,
                       entry_at ''https://b.io'' ''alice'' ''c1'' 5], initialized = True\<rparr>,
         (quiet_world (Parsed (Urls [entry_at ''https://a.io'' ''alice'' ''c1'' 5,
                               entry_at ''https://b.io'' ''alice'' ''c1'' 5])) 5)
           \<lparr>write_ok := (\<lambda>k. k \<noteq> 0), writes := 2, clock_reads := 2\<rparr>)"
    apply (subst processUrl_absent [OF i(2) d1 e1])
    apply (subst addUrl_initialized [OF i(2) d1])
    apply (simp add: Let_def p quiet_world_def)
    done
  show ?thesis
    by (simp only: handleMessage_def g mm if_False simp_thms process_each.simps s1 s2 prod.case)
qed

section \<open>C1: a repost after the threshold\<close>

text \<open>
  C1 (amended). When the existing record of \<open>u\<close> is older than the threshold and the write
  succeeds, the post is allowed and the new posting is appended to the store and the file
  as one more entry. The original entry stays, and as long as the new timestamp is not
  before the original's, a lookup of \<open>u\<close> keeps returning the original entry.
  \<open>UrlStorage.addUrl\<close>, for its part, answers \<open>null\<close> for a URL that is already stored and
  leaves the store and the file as they are.
\<close>

theorem processUrl_expired_appends:
  assumes "initialized st" and "earliest u (data_urls st) = Some h"
    and "URL_REPOST_THRESHOLD_HOURS ev = Some t" and "of_int t < post_age w h"
    and "write_ok w (writes w)"
  shows "fst (processUrl ev st w u m) = RepostAllowed
       \<and> data (fst (snd (processUrl ev st w u m)))
           = Urls (data_urls st @ [posting u m (clock w (Suc (clock_reads w)))])
       \<and> disk (snd (snd (processUrl ev st w u m)))
           = Parsed (Urls (data_urls st @ [posting u m (clock w (Suc (clock_reads w)))]))
       \<and> (timestamp h \<le> clock w (Suc (clock_reads w)) \<longrightarrow>
            earliest u (data_urls (fst (snd (processUrl ev st w u m)))) = Some h)
       \<and> (isDuplicateUrl sst su \<longrightarrow>
            UrlStorage_addUrl sst sw su uid cid tid mid murl = (None, sst, sw))"
proof -
  have "above_threshold (post_age w h) (URL_REPOST_THRESHOLD_HOURS ev)"
    using assms(3,4) by (simp add: above_threshold_def)
  from processUrl_expired [OF assms(1,2) this, of m] assms(5)
  have p: "processUrl ev st w u m =
     (RepostAllowed,
      st\<lparr>data := Urls (data_urls st @ [posting u m (clock w (Suc (clock_reads w)))])\<rparr>,
      w\<lparr>disk := Parsed (Urls (data_urls st @ [posting u m (clock w (Suc (clock_reads w)))])),
        writes := Suc (writes w), clock_reads := Suc (Suc (clock_reads w))\<rparr>)"
    by (simp add: Let_def)
  have "earliest u (data_urls st @ [posting u m (clock w (Suc (clock_reads w)))]) = Some h"
    if "timestamp h \<le> clock w (Suc (clock_reads w))"
    using that assms(2) by (simp add: earliest_snoc posting_def)
  then show ?thesis by (simp add: p data_urls_update UrlStorage_addUrl_skip)
qed

theorem processUrl_expired_appends_witness:
  "initialized \<lparr>data = Urls [entry_at ''https://a.io'' ''alice'' ''c1'' 0], initialized = True\<rparr>
   \<and> earliest ''https://a.io'' [entry_at ''https://a.io'' ''alice'' ''c1'' 0]
       = Some (entry_at ''https://a.io'' ''alice'' ''c1'' 0)
   \<and> URL_REPOST_THRESHOLD_HOURS config = Some 24
   \<and> post_age (quiet_world (Parsed (Urls [entry_at ''https://a.io'' ''alice'' ''c1'' 0])) (36 * hour))
        (entry_at ''https://a.io'' ''alice'' ''c1'' 0) = 36
   \<and> fst (processUrl config
        \<lparr>data = Urls [entry_at ''https://a.io'' ''alice'' ''c1'' 0], initialized = True\<rparr>
        (quiet_world (Parsed (Urls [entry_at ''https://a.io'' ''alice'' ''c1'' 0])) (36 * hour))
        ''https://a.io'' (post ''bob'' ''c1'' ''see https://a.io'')) = RepostAllowed
   \<and> earliest ''https://a.io''
        (data_urls (fst (snd (processUrl config
           \<lparr>data = Urls [entry_at ''https://a.io'' ''alice'' ''c1'' 0], initialized = True\<rparr>
           (quiet_world (Parsed (Urls [entry_at ''https://a.io'' ''alice'' ''c1'' 0])) (36 * hour))
           ''https://a.io'' (post ''bob'' ''c1'' ''see https://a.io'')))))
       = Some (entry_at ''https://a.io'' ''alice'' ''c1'' 0)
   \<and> isDuplicateUrl
        \<lparr>urls = [(''c1'', [posted_by ''https://a.io'' ''alice'' ''c1'' ''m0'' 3])], isInitialized = True\<rparr>
        ''https://a.io''
   \<and> UrlStorage_addUrl
        \<lparr>urls = [(''c1'', [posted_by ''https://a.io'' ''alice'' ''c1'' ''m0'' 3])], isInitialized = True\<rparr>
        (storage_scene NoFile (36 * hour) True Resolved) ''https://a.io'' ''bob'' ''c1'' None None None
      = (None,
         \<lparr>urls = [(''c1'', [posted_by ''https://a.io'' ''alice'' ''c1'' ''m0'' 3])], isInitialized = True\<rparr>,
         storage_scene NoFile (36 * hour) True Resolved)"
proof -
  let ?e = "entry_at ''https://a.io'' ''alice'' ''c1'' 0"
  let ?st = "\<lparr>data = Urls [?e], initialized = True\<rparr>"
  let ?w = "quiet_world (Parsed (Urls [?e])) (36 * hour)"
  have i: "initialized ?st" by simp
  have e: "earliest ''https://a.io'' (data_urls ?st) = Some ?e"
    by (simp add: data_urls_literal earliest_def first_elem_def entry_at_def)
  have t: "URL_REPOST_THRESHOLD_HOURS config = Some 24" by (simp add: config_def)
  have a: "post_age ?w ?e = 36"
    by (simp add: post_age_def quiet_world_def entry_at_def hour_def)
  have lt: "of_int 24 < post_age ?w ?e" by (simp add: a)
  have wr: "write_ok ?w (writes ?w)" by (simp add: quiet_world_def)
  have c: "timestamp ?e \<le> clock ?w (Suc (clock_reads ?w))"
    by (simp add: quiet_world_def entry_at_def hour_def)
  let ?sst = "\<lparr>urls = [(''c1'', [posted_by ''https://a.io'' ''alice'' ''c1'' ''m0'' 3])],
                isInitialized = True\<rparr>"
  have du: "isDuplicateUrl ?sst ''https://a.io''"
    by (simp add: isDuplicateUrl_def posted_by_def stored_entry_def trim_idem)
  note r = processUrl_expired_appends [OF i e t lt wr, of "post ''bob'' ''c1'' ''see https://a.io''"
      ?sst "''https://a.io''" "storage_scene NoFile (36 * hour) True Resolved"
      "''bob''" "''c1''" None None None]
  from r du have r3: "UrlStorage_addUrl ?sst (storage_scene NoFile (36 * hour) True Resolved)
      ''https://a.io'' ''bob'' ''c1'' None None None
      = (None, ?sst, storage_scene NoFile (36 * hour) True Resolved)" by blast
  from r have r1: "fst (processUrl config ?st ?w ''https://a.io'' (post ''bob'' ''c1'' ''see https://a.io''))
      = RepostAllowed" by blast
  from r c have r2: "earliest ''https://a.io'' (data_urls (fst (snd (processUrl config ?st ?w
      ''https://a.io'' (post ''bob'' ''c1'' ''see https://a.io''))))) = Some ?e" by blast
  have e': "earliest ''https://a.io'' [?e] = Some ?e" using e by (simp add: data_urls_literal)
  show ?thesis
    by (intro conjI i e' t a r1 r2 du r3)
qed

text \<open>
  C1 as stated fails: alice posted at time 0, the threshold is 24 hours, bob reposts at
  36 hours. The repost is allowed, but the lookup still answers with alice's entry, and a
  third post right after is judged against alice's entry (36 hours old, allowed), not
  against bob's (fresh).
\<close>

theorem expired_repost_keeps_original_counterexample:
  "(case processUrl config
          \<lparr>data = Urls [entry_at ''https://a.io'' ''alice'' ''c1'' 0], initialized = True\<rparr>
          (quiet_world (Parsed (Urls [entry_at ''https://a.io'' ''alice'' ''c1'' 0])) (36 * hour))
          ''https://a.io'' (post ''bob'' ''c1'' ''see https://a.io'') of
      (oc, st1, w1) \<Rightarrow>
        oc = RepostAllowed
        \<and> fst (UrlStore_findUrlHistory st1 w1 ''https://a.io'')
            = Inr (Some (entry_at ''https://a.io'' ''alice'' ''c1'' 0))
        \<and> fst (processUrl config st1 w1 ''https://a.io'' (post ''alice'' ''c1'' ''again https://a.io''))
            = RepostAllowed)"
proof -
  let ?e = "entry_at ''https://a.io'' ''alice'' ''c1'' 0"
  let ?st1 = "\<lparr>data = Urls [?e, entry_at ''https://a.io'' ''bob'' ''c1'' (36 * hour)],
                initialized = True\<rparr>"
  let ?w1 = "(quiet_world (Parsed (Urls [?e, entry_at ''https://a.io'' ''bob'' ''c1'' (36 * hour)])) (36 * hour))
               \<lparr>writes := 1, clock_reads := 2\<rparr>"
  have i: "initialized ?st1" by simp
  have e: "earliest ''https://a.io'' (data_urls ?st1) = Some ?e"
    by (simp add: data_urls_literal earliest_def first_elem_def entry_at_def hour_def)
  have a: "above_threshold (post_age ?w1 ?e) (URL_REPOST_THRESHOLD_HOURS config)"
    by (simp add: above_threshold_def post_age_def quiet_world_def entry_at_def hour_def config_def)
  have wr: "write_ok ?w1 (writes ?w1)" by (simp add: quiet_world_def)
  have "fst (processUrl config ?st1 ?w1 ''https://a.io'' (post ''alice'' ''c1'' ''again https://a.io''))
          = RepostAllowed"
    apply (subst processUrl_expired [OF i e a])
    apply (simp add: Let_def quiet_world_def)
    done
  moreover have "fst (UrlStore_findUrlHistory ?st1 ?w1 ''https://a.io'') = Inr (Some ?e)"
    using e by (simp add: findUrlHistory_initialized [OF i] data_urls_literal)
  ultimately show ?thesis
    by (simp add: scenario_expired)
qed

section \<open>C2: an existence check that fails\<close>

text \<open>
  C2 at its failing inputs. The \<open>catch\<close> around the fetch of the existing record's message
  is written for a message that no longer exists, but it takes every rejection: for a
  request that failed (\<open>Unavailable\<close>) as for a message that Discord reports unknown,
  \<open>deleteUrl\<close> removes the record (the first stored entry with that trimmed URL), and unless
  that write throws, the post is then handled as a new URL. With one entry per URL, working
  writes and a guild message, the outcome is a new entry by the current author, the store
  holds it in place of the deleted record, and no error is reported. The earlier
  \<open>handleUrlMessage\<close>, which makes the check for the author's own record in the same channel,
  deletes the record in the same way and adds nothing.
\<close>

theorem rejected_fetch_deletes_record:
  assumes "UrlStorage_findUrlHistory st u = Some h"
    and "fetch_channel w (channelId h) = Resolved"
    and "fetch_message w (channelId h) (messageId h) = Rejected r"
  shows "handleUrl st w m u =
           (case UrlStorage_deleteUrl st w u of
              (Inl e, st1, w1) \<Rightarrow> (Thrown e, st1, w1)
            | (Inr _, st1, w1) \<Rightarrow> addNewUrlEntry st1 w1 m u)
       \<and> all_entries (fst (snd (UrlStorage_deleteUrl st w u)))
           = remove_first (\<lambda>e. trim (url e) = trim u) (all_entries st)
       \<and> Suc (length (all_entries (fst (snd (UrlStorage_deleteUrl st w u)))))
           = length (all_entries st)
       \<and> (one_per_url st \<longrightarrow> write_ok w (writes w) \<longrightarrow> write_ok w (Suc (writes w)) \<longrightarrow>
            guild_id m \<noteq> None \<longrightarrow>
              (\<exists>e. fst (handleUrl st w m u) = NewEntry (Some e)
                 \<and> userId e = Some (author_id m) \<and> url e = trim u
                 \<and> timestamp e = clock w (clock_reads w)
                 \<and> mset (all_entries (fst (snd (handleUrl st w m u))))
                     = mset (remove_first (\<lambda>e. trim (url e) = trim u) (all_entries st)) + {#e#}))
       \<and> (author h = Some (author_tag m) \<longrightarrow> channelId h = Some (msg_channelId m) \<longrightarrow>
            handleUrl_before st w m u =
              (case UrlStorage_deleteUrl st w u of
                 (Inl e, st1, w1) \<Rightarrow> (ThrownBefore e, st1, w1)
               | (Inr _, st1, w1) \<Rightarrow> (EntryDeleted, st1, w1)))"
proof -
  note fd = findUrlHistory_Some_D [OF assms(1)]
  from UrlStorage_deleteUrl_found [OF fd, of w]
  have a: "all_entries (fst (snd (UrlStorage_deleteUrl st w u)))
           = remove_first (\<lambda>e. trim (url e) = trim u) (all_entries st)"
    by (auto split: if_splits)
  have "list_ex (\<lambda>e. trim (url e) = trim u) (all_entries st)"
    using fd(2) by (simp add: list_ex_iff)
  then have b: "Suc (length (all_entries (fst (snd (UrlStorage_deleteUrl st w u)))))
           = length (all_entries st)"
    by (simp add: a length_remove_first)
  have c: "handleUrl_before st w m u =
              (case UrlStorage_deleteUrl st w u of
                 (Inl e, st1, w1) \<Rightarrow> (ThrownBefore e, st1, w1)
               | (Inr _, st1, w1) \<Rightarrow> (EntryDeleted, st1, w1))"
    if "author h = Some (author_tag m)" and "channelId h = Some (msg_channelId m)"
    using that assms(1,3) by (simp add: handleUrl_before_def)
  show ?thesis
    using handleUrl_rejected [OF assms, of m] a b handleUrl_rejected_readded [OF assms, of m] c
    by auto
qed

theorem rejected_fetch_deletes_record_witness:
  "UrlStorage_findUrlHistory
     \<lparr>urls = [(''c1'', [posted_by ''https://a.io'' ''alice'' ''c1'' ''m0'' 3])], isInitialized = True\<rparr>
     ''https://a.io''
     = Some (posted_by ''https://a.io'' ''alice'' ''c1'' ''m0'' 3)
   \<and> fetch_channel (storage_scene NoFile 9 True (Rejected Unavailable))
        (channelId (posted_by ''https://a.io'' ''alice'' ''c1'' ''m0'' 3)) = Resolved
   \<and> fetch_message (storage_scene NoFile 9 True (Rejected Unavailable))
        (channelId (posted_by ''https://a.io'' ''alice'' ''c1'' ''m0'' 3))
        (messageId (posted_by ''https://a.io'' ''alice'' ''c1'' ''m0'' 3)) = Rejected Unavailable
   \<and> all_entries (fst (snd (UrlStorage_deleteUrl
        \<lparr>urls = [(''c1'', [posted_by ''https://a.io'' ''alice'' ''c1'' ''m0'' 3])], isInitialized = True\<rparr>
        (storage_scene NoFile 9 True (Rejected Unavailable)) ''https://a.io''))) = []
   \<and> handleUrl
        \<lparr>urls = [(''c1'', [posted_by ''https://a.io'' ''alice'' ''c1'' ''m0'' 3])], isInitialized = True\<rparr>
        (storage_scene NoFile 9 True (Rejected Unavailable))
        (post ''bob'' ''c1'' ''see https://a.io'') ''https://a.io''
     = (NewEntry (Some (posted_by ''https://a.io'' ''bob'' ''c1'' ''m1'' 9)),
        \<lparr>urls = [(''c1'', [posted_by ''https://a.io'' ''bob'' ''c1'' ''m1'' 9])], isInitialized = True\<rparr>,
        (storage_scene (Parsed [(''c1'', [posted_by ''https://a.io'' ''bob'' ''c1'' ''m1'' 9])]) 9 True
           (Rejected Unavailable))\<lparr>writes := 2, clock_reads := 1\<rparr>)
   \<and> UrlStorage_findUrlHistory
        \<lparr>urls = [(''c1'', [synced_by ''https://a.io'' ''alice'' 3])], isInitialized = True\<rparr>
        ''https://a.io''
     = Some ((synced_by ''https://a.io'' ''alice'' 3)\<lparr>channelId := Some ''c1''\<rparr>)
   \<and> author ((synced_by ''https://a.io'' ''alice'' 3)\<lparr>channelId := Some ''c1''\<rparr>)
     = Some (author_tag (post ''alice'' ''c1'' ''again https://a.io''))
   \<and> handleUrl_before
        \<lparr>urls = [(''c1'', [synced_by ''https://a.io'' ''alice'' 3])], isInitialized = True\<rparr>
        (storage_scene NoFile 9 True (Rejected Unavailable))
        (post ''alice'' ''c1'' ''again https://a.io'') ''https://a.io''
     = (EntryDeleted, \<lparr>urls = [(''c1'', [])], isInitialized = True\<rparr>,
        (storage_scene (Parsed [(''c1'', [])]) 9 True (Rejected Unavailable))\<lparr>writes := 1\<rparr>)"
proof -
  let ?st = "\<lparr>urls = [(''c1'', [posted_by ''https://a.io'' ''alice'' ''c1'' ''m0'' 3])],
               isInitialized = True\<rparr>"
  let ?bst = "\<lparr>urls = [(''c1'', [synced_by ''https://a.io'' ''alice'' 3])], isInitialized = True\<rparr>"
  let ?h = "(synced_by ''https://a.io'' ''alice'' 3)\<lparr>channelId := Some ''c1''\<rparr>"
  let ?w = "storage_scene NoFile 9 True (Rejected Unavailable)"
  have c: "fetch_channel ?w (channelId (posted_by ''https://a.io'' ''alice'' ''c1'' ''m0'' 3)) = Resolved"
    and r: "fetch_message ?w (channelId (posted_by ''https://a.io'' ''alice'' ''c1'' ''m0'' 3))
             (messageId (posted_by ''https://a.io'' ''alice'' ''c1'' ''m0'' 3)) = Rejected Unavailable"
    by (simp_all add: storage_scene_def)
  note t = rejected_fetch_deletes_record [OF scenario_lookup c r, of "post ''bob'' ''c1'' ''see https://a.io''"]
  have e: "remove_first (\<lambda>e. trim (url e) = trim ''https://a.io'') (all_entries ?st) = []"
    by (simp add: all_entries_def posted_by_def stored_entry_def trim_idem)
  from t e have d: "all_entries (fst (snd (UrlStorage_deleteUrl ?st ?w ''https://a.io''))) = []"
    by simp
  note h = scenario_unavailable
  have c': "fetch_channel ?w (channelId ?h) = Resolved"
    and r': "fetch_message ?w (channelId ?h) (messageId ?h) = Rejected Unavailable"
    by (simp_all add: storage_scene_def)
  have au: "author ?h = Some (author_tag (post ''alice'' ''c1'' ''again https://a.io''))"
    and ch: "channelId ?h = Some (msg_channelId (post ''alice'' ''c1'' ''again https://a.io''))"
    by (simp_all add: synced_by_def post_def)
  note t' = rejected_fetch_deletes_record [OF scenario_before_lookup c' r',
      of "post ''alice'' ''c1'' ''again https://a.io''"]
  from t' au ch
  have "handleUrl_before ?bst ?w (post ''alice'' ''c1'' ''again https://a.io'') ''https://a.io'' =
      (case UrlStorage_deleteUrl ?bst ?w ''https://a.io'' of
         (Inl e, st1, w1) \<Rightarrow> (ThrownBefore e, st1, w1)
       | (Inr _, st1, w1) \<Rightarrow> (EntryDeleted, st1, w1))"
    by blast
  then have b: "handleUrl_before ?bst ?w (post ''alice'' ''c1'' ''again https://a.io'') ''https://a.io''
     = (EntryDeleted, \<lparr>urls = [(''c1'', [])], isInitialized = True\<rparr>,
        (storage_scene (Parsed [(''c1'', [])]) 9 True (Rejected Unavailable))\<lparr>writes := 1\<rparr>)"
    by (simp only: scenario_before_delete prod.case sum.case)
  show ?thesis by (intro conjI scenario_lookup c r d h scenario_before_lookup au b)
qed

section \<open>C3: the boundary of the threshold\<close>

text \<open>
  C3. With an existing record and a numeric threshold, \<open>processUrl\<close> takes the repost branch
  only when the age is strictly greater than the threshold. At an age equal to the
  threshold (and at every smaller one) it takes the blocking branch: the store and the file
  stay as they are and the repost notice is sent (the outcome is the notice, or the Discord
  error if sending it or deleting the message fails).
\<close>

theorem processUrl_threshold_boundary:
  assumes "initialized st" and "earliest u (data_urls st) = Some h"
    and "URL_REPOST_THRESHOLD_HOURS ev = Some t"
  shows "(fst (processUrl ev st w u m) = RepostAllowed \<longrightarrow> of_int t < post_age w h)
       \<and> (post_age w h \<le> of_int t \<longrightarrow>
            fst (snd (processUrl ev st w u m)) = st
            \<and> disk (snd (snd (processUrl ev st w u m))) = disk w
            \<and> (fst (processUrl ev st w u m) = Errored DiscordAPIError
                 \<or> fst (processUrl ev st w u m) = RepostBlocked
                      (createRepostEmbed ev (post_age w h) (userId h = Some (author_id m)))
                      (deletable m))
            \<and> (discord_ok w (discord_calls w) \<and> discord_ok w (Suc (discord_calls w))
                 \<longrightarrow> fst (processUrl ev st w u m) = RepostBlocked
                      (createRepostEmbed ev (post_age w h) (userId h = Some (author_id m)))
                      (deletable m)))"
proof -
  have above: "above_threshold (post_age w h) (URL_REPOST_THRESHOLD_HOURS ev) \<longleftrightarrow> of_int t < post_age w h"
    using assms(3) by (simp add: above_threshold_def)
  have "of_int t < post_age w h" if "fst (processUrl ev st w u m) = RepostAllowed"
  proof (rule ccontr)
    assume "\<not> of_int t < post_age w h"
    then have "\<not> above_threshold (post_age w h) (URL_REPOST_THRESHOLD_HOURS ev)"
      using above by simp
    from processUrl_within(3) [OF assms(1,2) this, of m] that show False by simp
  qed
  moreover have "\<not> above_threshold (post_age w h) (URL_REPOST_THRESHOLD_HOURS ev)"
    if "post_age w h \<le> of_int t"
    using that above by simp
  ultimately show ?thesis
    using processUrl_within [OF assms(1,2), of w ev m] by blast
qed

theorem processUrl_threshold_boundary_witness:
  "initialized \<lparr>data = Urls [entry_at ''https://a.io'' ''alice'' ''c1'' 0], initialized = True\<rparr>
   \<and> earliest ''https://a.io'' [entry_at ''https://a.io'' ''alice'' ''c1'' 0]
       = Some (entry_at ''https://a.io'' ''alice'' ''c1'' 0)
   \<and> URL_REPOST_THRESHOLD_HOURS config = Some 24
   \<and> post_age (quiet_world (Parsed (Urls [entry_at ''https://a.io'' ''alice'' ''c1'' 0])) (24 * hour))
        (entry_at ''https://a.io'' ''alice'' ''c1'' 0) = 24
   \<and> processUrl config
        \<lparr>data = Urls [entry_at ''https://a.io'' ''alice'' ''c1'' 0], initialized = True\<rparr>
        (quiet_world (Parsed (Urls [entry_at ''https://a.io'' ''alice'' ''c1'' 0])) (24 * hour))
        ''https://a.io'' (post ''bob'' ''c1'' ''see https://a.io'')
      = (RepostBlocked \<lparr>isSameUser = False, posted_hours_ago = 24, time_remaining = Some 0\<rparr> True,
         \<lparr>data = Urls [entry_at ''https://a.io'' ''alice'' ''c1'' 0], initialized = True\<rparr>,
         (quiet_world (Parsed (Urls [entry_at ''https://a.io'' ''alice'' ''c1'' 0])) (24 * hour))
           \<lparr>clock_reads := 1, discord_calls := 2\<rparr>)"
proof -
  let ?e = "entry_at ''https://a.io'' ''alice'' ''c1'' 0"
  let ?st = "\<lparr>data = Urls [?e], initialized = True\<rparr>"
  let ?w = "quiet_world (Parsed (Urls [?e])) (24 * hour)"
  have e: "earliest ''https://a.io'' (data_urls ?st) = Some ?e"
    by (simp add: data_urls_literal earliest_def first_elem_def entry_at_def)
  have t: "URL_REPOST_THRESHOLD_HOURS config = Some 24" by (simp add: config_def)
  have a: "post_age ?w ?e = 24"
    by (simp add: post_age_def quiet_world_def entry_at_def hour_def)
  have i: "initialized ?st" by simp
  have p: "processUrl config ?st ?w ''https://a.io'' (post ''bob'' ''c1'' ''see https://a.io'')
      = (RepostBlocked \<lparr>isSameUser = False, posted_hours_ago = 24, time_remaining = Some 0\<rparr> True,
         ?st, ?w\<lparr>clock_reads := 1, discord_calls := 2\<rparr>)"
    apply (subst processUrl_found [OF i e])
    apply (simp add: a t above_threshold_def createRepostEmbed_def)
    apply (simp add: discord_call_def quiet_world_def post_def entry_at_def config_def)
    done
  show ?thesis
    using processUrl_threshold_boundary [OF i e t, of ?w "post ''bob'' ''c1'' ''see https://a.io''"]
      e t a p
    by (simp add: data_urls_literal)
qed

section \<open>C4: the same URL twice in one message\<close>

text \<open>
  C4 at a failing input: a message that contains the same new URL twice. \<open>handleMessage\<close>
  processes both matches: the first stores the URL, the second finds that entry, answers
  with the repost notice for the same user and deletes the message.
\<close>

theorem handleMessage_same_url_twice:
  "handleMessage config \<lparr>data = Urls [], initialized = True\<rparr> (quiet_world (Parsed (Urls [])) 5)
     (post ''alice'' ''c1'' ''https://a.io https://a.io'')
   = ([FirstPost,
       RepostBlocked \<lparr>isSameUser = True, posted_hours_ago = 0, time_remaining = Some 24\<rparr> True],
      \<lparr>data = Urls [entry_at ''https://a.io'' ''alice'' ''c1'' 5], initialized = True\<rparr>,
      (quiet_world (Parsed (Urls [entry_at ''https://a.io'' ''alice'' ''c1'' 5])) 5)
        \<lparr>writes := 1, clock_reads := 2, discord_calls := 2\<rparr>)"
proof -
  let ?m = "post ''alice'' ''c1'' ''https://a.io https://a.io''"
  let ?st = "\<lparr>data = Urls [], initialized = True\<rparr>"
  let ?w = "quiet_world (Parsed (Urls [])) 5"
  let ?e = "entry_at ''https://a.io'' ''alice'' ''c1'' 5"
  let ?st1 = "\<lparr>data = Urls [?e], initialized = True\<rparr>"
  let ?w1 = "(quiet_world (Parsed (Urls [?e])) 5)\<lparr>writes := 1, clock_reads := 1\<rparr>"
  have g: "\<not> author_bot ?m" "take 1 (content ?m) \<noteq> ''!''" "\<not> outside_main config ?m"
    by (simp_all add: post_def outside_main_def config_def)
  have mm: "match_urlRegex (content ?m) = [''https://a.io'', ''https://a.io'']"
    by (simp only: post_def message.select_convs match_twice)
  have p: "posting u ?m t = entry_at u ''alice'' ''c1'' t" for u t
    by (simp add: posting_def entry_at_def post_def thread_of_def)
  have i: "initialized ?st" "initialized ?st1" by simp_all
  have d: "data ?st = Urls []" by simp
  have e: "earliest ''https://a.io'' [] = None"
    by (simp add: earliest_def first_elem_def)
  have e1: "earliest ''https://a.io'' (data_urls ?st1) = Some ?e"
    by (simp add: data_urls_literal earliest_def first_elem_def entry_at_def)
  have a: "post_age ?w1 ?e = 0"
    by (simp add: post_age_def quiet_world_def entry_at_def)
  have s1: "processUrl config ?st ?w ''https://a.io'' ?m = (FirstPost, ?st1, ?w1)"
    apply (subst processUrl_absent [OF i(1) d e])
    apply (subst addUrl_initialized [OF i(1) d])
    apply (simp add: Let_def p quiet_world_def)
    done
  have s2: "processUrl config ?st1 ?w1 ''https://a.io'' ?m
      = (RepostBlocked \<lparr>isSameUser = True, posted_hours_ago = 0, time_remaining = Some 24\<rparr> True,
         ?st1, (quiet_world (Parsed (Urls [?e])) 5)\<lparr>writes := 1, clock_reads := 2, discord_calls := 2\<rparr>)"
    apply (subst processUrl_found [OF i(2) e1])
    apply (simp only: a)
    apply (simp add: above_threshold_def createRepostEmbed_def config_def)
    apply (simp add: discord_call_def quiet_world_def post_def entry_at_def)
    done
  show ?thesis
    by (simp only: handleMessage_def g mm if_False simp_thms process_each.simps s1 s2 prod.case)
qed

section \<open>C5: one record per URL\<close>

text \<open>
  C5 (amended). In \<open>UrlStorage\<close>, \<open>addUrl\<close> skips a URL whose trimmed text is already stored
  in any channel: starting from a store with at most one entry per trimmed URL (the empty
  store is one), every run of \<open>addUrl\<close> and \<open>deleteUrl\<close> calls ends in such a store.
  \<open>UrlStore.addUrl\<close> makes no such test: on an initialized store (whose data has its
  \<open>urls\<close> array) it appends one entry per call.
\<close>

theorem UrlStorage_one_entry_per_url:
  "(one_per_url st \<longrightarrow> one_per_url (fst (run_ops st w ops)))
   \<and> one_per_url \<lparr>urls = [], isInitialized = True\<rparr>
   \<and> (initialized s \<and> data s \<noteq> NoUrls \<longrightarrow>
        data (fst (snd (UrlStore_addUrl s sw u (author_id m) (msg_channelId m) (thread_of m))))
          = Urls (data_urls s @ [posting u m (clock sw (clock_reads sw))]))"
proof -
  have "one_per_url \<lparr>urls = [], isInitialized = True\<rparr>"
    by (simp add: one_per_url_def all_entries_def)
  moreover have "data (fst (snd (UrlStore_addUrl s sw u (author_id m) (msg_channelId m)
        (thread_of m)))) = Urls (data_urls s @ [posting u m (clock sw (clock_reads sw))])"
    if "initialized s" and "data s \<noteq> NoUrls"
  proof -
    from that(2) obtain es where d: "data s = Urls es" by (cases "data s") auto
    show ?thesis
      by (simp add: addUrl_initialized [OF that(1) d] Let_def data_urls_update
          data_urls_Urls [OF d])
  qed
  ultimately show ?thesis
    by (simp add: one_per_url_run_ops)
qed

theorem UrlStorage_one_entry_per_url_witness:
  "one_per_url \<lparr>urls = [], isInitialized = True\<rparr>
   \<and> fst (run_ops \<lparr>urls = [], isInitialized = True\<rparr> (storage_scene (Parsed []) 5 True Resolved)
        [AddUrl ''https://a.io'' ''alice'' ''c1'' None (Some ''m1'') None,
         AddUrl '' https://a.io '' ''bob'' ''c2'' None (Some ''m2'') None])
      = \<lparr>urls = [(''c1'', [stored_entry ''https://a.io'' ''alice'' ''c1'' None (Some ''m1'') None 5])],
         isInitialized = True\<rparr>
   \<and> one_per_url
        \<lparr>urls = [(''c1'', [stored_entry ''https://a.io'' ''alice'' ''c1'' None (Some ''m1'') None 5])],
         isInitialized = True\<rparr>
   \<and> initialized \<lparr>data = Urls [entry_at ''https://a.io'' ''alice'' ''c1'' 0], initialized = True\<rparr>
   \<and> data \<lparr>data = Urls [entry_at ''https://a.io'' ''alice'' ''c1'' 0], initialized = True\<rparr> \<noteq> NoUrls
   \<and> data (fst (snd (UrlStore_addUrl
        \<lparr>data = Urls [entry_at ''https://a.io'' ''alice'' ''c1'' 0], initialized = True\<rparr>
        (quiet_world NoFile 5) ''https://a.io''
        (author_id (post ''bob'' ''c1'' ''see https://a.io''))
        (msg_channelId (post ''bob'' ''c1'' ''see https://a.io''))
        (thread_of (post ''bob'' ''c1'' ''see https://a.io'')))))
      = Urls [entry_at ''https://a.io'' ''alice'' ''c1'' 0, entry_at ''https://a.io'' ''bob'' ''c1'' 5]"
proof -
  let ?st = "\<lparr>urls = [], isInitialized = True\<rparr>"
  let ?w = "storage_scene (Parsed []) 5 True Resolved"
  let ?ops = "[AddUrl ''https://a.io'' ''alice'' ''c1'' None (Some ''m1'') None,
               AddUrl '' https://a.io '' ''bob'' ''c2'' None (Some ''m2'') None]"
  let ?e = "stored_entry ''https://a.io'' ''alice'' ''c1'' None (Some ''m1'') None 5"
  let ?st1 = "\<lparr>urls = [(''c1'', [?e])], isInitialized = True\<rparr>"
  have t: "trim '' https://a.io '' = ''https://a.io''" "trim ''https://a.io'' = ''https://a.io''"
    by (simp_all add: trim_def js_whitespace_def)
  have i: "one_per_url ?st" by (simp add: one_per_url_def all_entries_def)
  have a1: "UrlStorage_addUrl ?st ?w ''https://a.io'' ''alice'' ''c1'' None (Some ''m1'') None
      = (Some ?e, ?st1, ?w\<lparr>disk := Parsed [(''c1'', [?e])], writes := 1, clock_reads := 1\<rparr>)"
    apply (subst UrlStorage_addUrl_fresh)
      apply (simp_all add: isDuplicateUrl_def Let_def with_entry_def)
    apply (simp add: storage_scene_def Object_fromEntries_def obj_put_def array_index_def digit_def)
    done
  have a2: "UrlStorage_addUrl ?st1 w2 '' https://a.io '' ''bob'' ''c2'' None (Some ''m2'') None
      = (None, ?st1, w2)" for w2
    by (rule UrlStorage_addUrl_skip) (simp add: isDuplicateUrl_def stored_entry_def t trim_idem)
  have r: "fst (run_ops ?st ?w ?ops) = ?st1"
    by (simp add: a1 a2)
  let ?s = "\<lparr>data = Urls [entry_at ''https://a.io'' ''alice'' ''c1'' 0], initialized = True\<rparr>"
  let ?m = "post ''bob'' ''c1'' ''see https://a.io''"
  note th = UrlStorage_one_entry_per_url [of ?st ?w ?ops ?s "quiet_world NoFile 5" "''https://a.io''" ?m]
  from th i have "one_per_url (fst (run_ops ?st ?w ?ops))" by blast
  with r have o1: "one_per_url ?st1" by simp
  have j: "initialized ?s" and k: "data ?s \<noteq> NoUrls" by simp_all
  have p: "posting ''https://a.io'' ?m (clock (quiet_world NoFile 5) (clock_reads (quiet_world NoFile 5)))
             = entry_at ''https://a.io'' ''bob'' ''c1'' 5"
    by (simp add: posting_def entry_at_def post_def thread_of_def quiet_world_def)
  from th j k have "data (fst (snd (UrlStore_addUrl ?s (quiet_world NoFile 5) ''https://a.io''
        (author_id ?m) (msg_channelId ?m) (thread_of ?m))))
      = Urls (data_urls ?s @ [posting ''https://a.io'' ?m
          (clock (quiet_world NoFile 5) (clock_reads (quiet_world NoFile 5)))])"
    by blast
  then have u: "data (fst (snd (UrlStore_addUrl ?s (quiet_world NoFile 5) ''https://a.io''
        (author_id ?m) (msg_channelId ?m) (thread_of ?m))))
      = Urls [entry_at ''https://a.io'' ''alice'' ''c1'' 0, entry_at ''https://a.io'' ''bob'' ''c1'' 5]"
    by (simp only: p data_urls_literal append.simps)
  show ?thesis by (intro conjI i r o1 j k u)
qed

text \<open>
  C5 as stated fails for \<open>UrlStore\<close>: two \<open>addUrl\<close> calls for the same URL leave two
  records for it.
\<close>

theorem UrlStore_addUrl_twice_counterexample:
  "(case UrlStore_addUrl \<lparr>data = Urls [], initialized = True\<rparr> (quiet_world (Parsed (Urls [])) 5)
           ''https://a.io'' ''alice'' ''c1'' None of
      (r1, st1, w1) \<Rightarrow>
        data (fst (snd (UrlStore_addUrl st1 w1 ''https://a.io'' ''bob'' ''c1'' None)))
          = Urls [entry_at ''https://a.io'' ''alice'' ''c1'' 5, entry_at ''https://a.io'' ''bob'' ''c1'' 5])"
  by (simp add: UrlStore_addUrl_def ensure_init_def Date_now_def saveData_def writeFile_def
      quiet_world_def entry_at_def data_urls_def Let_def)

section \<open>C6: lookup before the load\<close>

text \<open>
  C6 (amended). A lookup before the load has completed raises no initialization error.
  \<open>UrlStorage.findUrlHistory\<close> answers \<open>null\<close>, as for an unknown URL. \<open>UrlStore.findUrlHistory\<close>
  runs \<open>init\<close> itself and then looks up: in the loaded array when the file holds an object
  with a \<open>urls\<close> array, in its own array after creating the file when there is none. It
  throws what \<open>init\<close> throws (the read or parse error of a bad file, the write error when the
  file cannot be created); and when the file parses to a value without a \<open>urls\<close> array,
  \<open>init\<close> succeeds and the lookup itself throws a \<open>TypeError\<close>.
\<close>

theorem lookup_before_load:
  "(\<not> isInitialized sst \<longrightarrow> UrlStorage_findUrlHistory sst u = None)
   \<and> (\<not> initialized st \<longrightarrow>
        UrlStore_findUrlHistory st w u =
          (case disk w of
             Parsed (Urls d) \<Rightarrow> (Inr (earliest u d), \<lparr>data = Urls d, initialized = True\<rparr>, w)
           | Parsed NoUrls \<Rightarrow> (Inl TypeError, \<lparr>data = NoUrls, initialized = True\<rparr>, w)
           | NoFile \<Rightarrow>
               if write_ok w (writes w)
               then (case data st of
                       Urls es \<Rightarrow> Inr (earliest u es)
                     | NoUrls \<Rightarrow> Inl TypeError,
                     st\<lparr>initialized := True\<rparr>,
                     w\<lparr>disk := Parsed (data st), writes := Suc (writes w)\<rparr>)
               else (Inl EIO, st, w\<lparr>writes := Suc (writes w)\<rparr>)
           | Unreadable \<Rightarrow> (Inl EACCES, st, w)
           | Garbage \<Rightarrow> (Inl SyntaxError, st, w)))"
proof -
  have "UrlStore_findUrlHistory st w u =
          (case disk w of
             Parsed (Urls d) \<Rightarrow> (Inr (earliest u d), \<lparr>data = Urls d, initialized = True\<rparr>, w)
           | Parsed NoUrls \<Rightarrow> (Inl TypeError, \<lparr>data = NoUrls, initialized = True\<rparr>, w)
           | NoFile \<Rightarrow>
               if write_ok w (writes w)
               then (case data st of
                       Urls es \<Rightarrow> Inr (earliest u es)
                     | NoUrls \<Rightarrow> Inl TypeError,
                     st\<lparr>initialized := True\<rparr>,
                     w\<lparr>disk := Parsed (data st), writes := Suc (writes w)\<rparr>)
               else (Inl EIO, st, w\<lparr>writes := Suc (writes w)\<rparr>)
           | Unreadable \<Rightarrow> (Inl EACCES, st, w)
           | Garbage \<Rightarrow> (Inl SyntaxError, st, w))"
    if n: "\<not> initialized st"
  proof (cases "disk w")
    case (Parsed v)
    then show ?thesis
      using n
      by (cases v)
         (simp_all add: UrlStore_findUrlHistory_def ensure_init_def UrlStore_init_def
           loadData_def readFile_def UrlStore_loaded)
  next
    case NoFile
    then show ?thesis
      using n
      by (cases "data st")
         (simp_all add: UrlStore_findUrlHistory_def ensure_init_def UrlStore_init_def
           loadData_def saveData_def readFile_def writeFile_def)
  next
    case Unreadable
    then show ?thesis
      using n
      by (simp add: UrlStore_findUrlHistory_def ensure_init_def UrlStore_init_def
          loadData_def readFile_def)
  next
    case Garbage
    then show ?thesis
      using n
      by (simp add: UrlStore_findUrlHistory_def ensure_init_def UrlStore_init_def
          loadData_def readFile_def)
  qed
  then show ?thesis by (simp add: UrlStorage_findUrlHistory_def)
qed

theorem lookup_before_load_witness:
  "\<not> isInitialized UrlStorage_new
   \<and> UrlStorage_findUrlHistory UrlStorage_new ''https://a.io'' = None
   \<and> \<not> initialized UrlStore_new
   \<and> UrlStore_findUrlHistory UrlStore_new
        (quiet_world (Parsed (Urls [entry_at ''https://a.io'' ''alice'' ''c1'' 3])) 5) ''https://a.io''
      = (Inr (Some (entry_at ''https://a.io'' ''alice'' ''c1'' 3)),
         \<lparr>data = Urls [entry_at ''https://a.io'' ''alice'' ''c1'' 3], initialized = True\<rparr>,
         quiet_world (Parsed (Urls [entry_at ''https://a.io'' ''alice'' ''c1'' 3])) 5)
   \<and> UrlStore_findUrlHistory UrlStore_new (quiet_world (Parsed NoUrls) 5) ''https://a.io''
      = (Inl TypeError, \<lparr>data = NoUrls, initialized = True\<rparr>, quiet_world (Parsed NoUrls) 5)
   \<and> UrlStore_findUrlHistory UrlStore_new (quiet_world Garbage 5) ''https://a.io''
      = (Inl SyntaxError, UrlStore_new, quiet_world Garbage 5)"
proof -
  let ?w = "quiet_world (Parsed (Urls [entry_at ''https://a.io'' ''alice'' ''c1'' 3])) 5"
  let ?v = "quiet_world (Parsed NoUrls) 5"
  let ?g = "quiet_world Garbage 5"
  have a: "\<not> isInitialized UrlStorage_new" by (simp add: UrlStorage_new_def)
  have b: "\<not> initialized UrlStore_new" by (simp add: UrlStore_new_def)
  have d: "disk ?w = Parsed (Urls [entry_at ''https://a.io'' ''alice'' ''c1'' 3])"
    and dv: "disk ?v = Parsed NoUrls" and dg: "disk ?g = Garbage"
    by (simp_all add: quiet_world_def)
  have e: "earliest ''https://a.io'' [entry_at ''https://a.io'' ''alice'' ''c1'' 3]
             = Some (entry_at ''https://a.io'' ''alice'' ''c1'' 3)"
    by (simp add: earliest_def first_elem_def entry_at_def)
  note r = lookup_before_load [of UrlStorage_new "''https://a.io''" UrlStore_new ?w]
  from r a have r1: "UrlStorage_findUrlHistory UrlStorage_new ''https://a.io'' = None" by blast
  from r b have "UrlStore_findUrlHistory UrlStore_new ?w ''https://a.io'' =
          (case disk ?w of
             Parsed (Urls d) \<Rightarrow>
               (Inr (earliest ''https://a.io'' d), \<lparr>data = Urls d, initialized = True\<rparr>, ?w)
           | Parsed NoUrls \<Rightarrow> (Inl TypeError, \<lparr>data = NoUrls, initialized = True\<rparr>, ?w)
           | NoFile \<Rightarrow>
               if write_ok ?w (writes ?w)
               then (case data UrlStore_new of
                       Urls es \<Rightarrow> Inr (earliest ''https://a.io'' es)
                     | NoUrls \<Rightarrow> Inl TypeError,
                     UrlStore_new\<lparr>initialized := True\<rparr>,
                     ?w\<lparr>disk := Parsed (data UrlStore_new), writes := Suc (writes ?w)\<rparr>)
               else (Inl EIO, UrlStore_new, ?w\<lparr>writes := Suc (writes ?w)\<rparr>)
           | Unreadable \<Rightarrow> (Inl EACCES, UrlStore_new, ?w)
           | Garbage \<Rightarrow> (Inl SyntaxError, UrlStore_new, ?w))" by blast
  then have r2: "UrlStore_findUrlHistory UrlStore_new ?w ''https://a.io''
      = (Inr (Some (entry_at ''https://a.io'' ''alice'' ''c1'' 3)),
         \<lparr>data = Urls [entry_at ''https://a.io'' ''alice'' ''c1'' 3], initialized = True\<rparr>, ?w)"
    by (simp add: d e)
  note rv = lookup_before_load [of UrlStorage_new "''https://a.io''" UrlStore_new ?v]
  from rv b have "UrlStore_findUrlHistory UrlStore_new ?v ''https://a.io'' =
          (case disk ?v of
             Parsed (Urls d) \<Rightarrow>
               (Inr (earliest ''https://a.io'' d), \<lparr>data = Urls d, initialized = True\<rparr>, ?v)
           | Parsed NoUrls \<Rightarrow> (Inl TypeError, \<lparr>data = NoUrls, initialized = True\<rparr>, ?v)
           | NoFile \<Rightarrow>
               if write_ok ?v (writes ?v)
               then (case data UrlStore_new of
                       Urls es \<Rightarrow> Inr (earliest ''https://a.io'' es)
                     | NoUrls \<Rightarrow> Inl TypeError,
                     UrlStore_new\<lparr>initialized := True\<rparr>,
                     ?v\<lparr>disk := Parsed (data UrlStore_new), writes := Suc (writes ?v)\<rparr>)
               else (Inl EIO, UrlStore_new, ?v\<lparr>writes := Suc (writes ?v)\<rparr>)
           | Unreadable \<Rightarrow> (Inl EACCES, UrlStore_new, ?v)
           | Garbage \<Rightarrow> (Inl SyntaxError, UrlStore_new, ?v))" by blast
  then have r3: "UrlStore_findUrlHistory UrlStore_new ?v ''https://a.io''
      = (Inl TypeError, \<lparr>data = NoUrls, initialized = True\<rparr>, ?v)"
    by (simp add: dv)
  note rg = lookup_before_load [of UrlStorage_new "''https://a.io''" UrlStore_new ?g]
  from rg b have "UrlStore_findUrlHistory UrlStore_new ?g ''https://a.io'' =
          (case disk ?g of
             Parsed (Urls d) \<Rightarrow>
               (Inr (earliest ''https://a.io'' d), \<lparr>data = Urls d, initialized = True\<rparr>, ?g)
           | Parsed NoUrls \<Rightarrow> (Inl TypeError, \<lparr>data = NoUrls, initialized = True\<rparr>, ?g)
           | NoFile \<Rightarrow>
               if write_ok ?g (writes ?g)
               then (case data UrlStore_new of
                       Urls es \<Rightarrow> Inr (earliest ''https://a.io'' es)
                     | NoUrls \<Rightarrow> Inl TypeError,
                     UrlStore_new\<lparr>initialized := True\<rparr>,
                     ?g\<lparr>disk := Parsed (data UrlStore_new), writes := Suc (writes ?g)\<rparr>)
               else (Inl EIO, UrlStore_new, ?g\<lparr>writes := Suc (writes ?g)\<rparr>)
           | Unreadable \<Rightarrow> (Inl EACCES, UrlStore_new, ?g)
           | Garbage \<Rightarrow> (Inl SyntaxError, UrlStore_new, ?g))" by blast
  then have r4: "UrlStore_findUrlHistory UrlStore_new ?g ''https://a.io''
      = (Inl SyntaxError, UrlStore_new, ?g)"
    by (simp add: dg)
  show ?thesis by (intro conjI a b r1 r2 r3 r4)
qed

text \<open>
  C6 as stated fails: on stores that were never initialized the lookup returns the stored
  entry (\<open>UrlStore\<close>, file present), absent (\<open>UrlStore\<close>, no file) and \<open>null\<close> (\<open>UrlStorage\<close>).
\<close>

theorem lookup_before_load_counterexample:
  "fst (UrlStore_findUrlHistory UrlStore_new
          (quiet_world (Parsed (Urls [entry_at ''https://a.io'' ''alice'' ''c1'' 3])) 5) ''https://a.io'')
     = Inr (Some (entry_at ''https://a.io'' ''alice'' ''c1'' 3))
   \<and> fst (UrlStore_findUrlHistory UrlStore_new (quiet_world NoFile 5) ''https://a.io'') = Inr None
   \<and> UrlStorage_findUrlHistory UrlStorage_new ''https://a.io'' = None"
  by (simp add: UrlStorage_findUrlHistory_def UrlStore_findUrlHistory_def ensure_init_def
       UrlStore_init_def loadData_def saveData_def readFile_def writeFile_def
       UrlStore_new_def UrlStorage_new_def quiet_world_def earliest_def first_elem_def entry_at_def)

section \<open>C7: a write that fails\<close>

text \<open>
  C7 at its failing inputs. In \<open>handleUrlMessage\<close> one \<open>try\<close> encloses the whole loop: when
  the handling of a URL throws, that exception is the last outcome and the URLs after it in
  the message get none. The write in \<open>deleteUrl\<close> is not guarded (the one in \<open>saveUrls\<close> is):
  when the record of \<open>u\<close> points to a message whose fetch rejects and that write fails,
  the handling of \<open>u\<close> throws the write error, with the record already removed in memory and
  the file unchanged, and the remaining URLs of the message are dropped.
\<close>

theorem handleUrlMessage_stops_at_exception:
  "(fst (handleUrl st w m u) = Thrown e \<longrightarrow>
      handleUrlMessage st w m (u # us) = ([Thrown e], snd (handleUrl st w m u)))
   \<and> (UrlStorage_findUrlHistory st u = Some h \<and> fetch_channel w (channelId h) = Resolved
        \<and> fetch_message w (channelId h) (messageId h) = Rejected r
        \<and> \<not> write_ok w (writes w) \<longrightarrow>
          fst (handleUrl st w m u) = Thrown EIO
          \<and> all_entries (fst (snd (handleUrl st w m u)))
              = remove_first (\<lambda>e. trim (url e) = trim u) (all_entries st)
          \<and> disk (snd (snd (handleUrl st w m u))) = disk w
          \<and> fst (handleUrlMessage st w m (u # us)) = [Thrown EIO])"
proof -
  have stop: "handleUrlMessage st w m (u # us) = ([Thrown e], snd (handleUrl st w m u))"
    if "fst (handleUrl st w m u) = Thrown e" for e
    using that by (cases "handleUrl st w m u") auto
  have fail: "fst (handleUrl st w m u) = Thrown EIO
          \<and> all_entries (fst (snd (handleUrl st w m u)))
              = remove_first (\<lambda>e. trim (url e) = trim u) (all_entries st)
          \<and> disk (snd (snd (handleUrl st w m u))) = disk w"
    if f: "UrlStorage_findUrlHistory st u = Some h"
      and c: "fetch_channel w (channelId h) = Resolved"
      and r: "fetch_message w (channelId h) (messageId h) = Rejected r"
      and n: "\<not> write_ok w (writes w)"
  proof -
    note fd = findUrlHistory_Some_D [OF f]
    from UrlStorage_deleteUrl_found [OF fd, of w] n
    obtain st1 where a: "all_entries st1 = remove_first (\<lambda>e. trim (url e) = trim u) (all_entries st)"
      and d: "UrlStorage_deleteUrl st w u = (Inl EIO, st1, w\<lparr>writes := Suc (writes w)\<rparr>)"
      by auto
    show ?thesis
      by (simp add: handleUrl_rejected [OF f c r] d a)
  qed
  from stop fail show ?thesis by simp
qed

theorem handleUrlMessage_stops_at_exception_witness:
  "UrlStorage_findUrlHistory
     \<lparr>urls = [(''c1'', [posted_by ''https://a.io'' ''alice'' ''c1'' ''m0'' 3])], isInitialized = True\<rparr>
     ''https://a.io''
     = Some (posted_by ''https://a.io'' ''alice'' ''c1'' ''m0'' 3)
   \<and> fetch_channel (storage_scene NoFile 9 False (Rejected Unknown))
        (channelId (posted_by ''https://a.io'' ''alice'' ''c1'' ''m0'' 3)) = Resolved
   \<and> fetch_message (storage_scene NoFile 9 False (Rejected Unknown))
        (channelId (posted_by ''https://a.io'' ''alice'' ''c1'' ''m0'' 3))
        (messageId (posted_by ''https://a.io'' ''alice'' ''c1'' ''m0'' 3)) = Rejected Unknown
   \<and> \<not> write_ok (storage_scene NoFile 9 False (Rejected Unknown))
          (writes (storage_scene NoFile 9 False (Rejected Unknown)))
   \<and> fst (handleUrl
        \<lparr>urls = [(''c1'', [posted_by ''https://a.io'' ''alice'' ''c1'' ''m0'' 3])], isInitialized = True\<rparr>
        (storage_scene NoFile 9 False (Rejected Unknown))
        (post ''bob'' ''c1'' ''https://a.io https://b.io'') ''https://a.io'') = Thrown EIO
   \<and> handleUrlMessage
        \<lparr>urls = [(''c1'', [posted_by ''https://a.io'' ''alice'' ''c1'' ''m0'' 3])], isInitialized = True\<rparr>
        (storage_scene NoFile 9 False (Rejected Unknown))
        (post ''bob'' ''c1'' ''https://a.io https://b.io'') [''https://a.io'', ''https://b.io'']
      = ([Thrown EIO],
         \<lparr>urls = [(''c1'', [])], isInitialized = True\<rparr>,
         (storage_scene NoFile 9 False (Rejected Unknown))\<lparr>writes := 1\<rparr>)"
proof -
  let ?st = "\<lparr>urls = [(''c1'', [posted_by ''https://a.io'' ''alice'' ''c1'' ''m0'' 3])],
               isInitialized = True\<rparr>"
  let ?w = "storage_scene NoFile 9 False (Rejected Unknown)"
  let ?m = "post ''bob'' ''c1'' ''https://a.io https://b.io''"
  have c: "fetch_channel ?w (channelId (posted_by ''https://a.io'' ''alice'' ''c1'' ''m0'' 3)) = Resolved"
    and r: "fetch_message ?w (channelId (posted_by ''https://a.io'' ''alice'' ''c1'' ''m0'' 3))
             (messageId (posted_by ''https://a.io'' ''alice'' ''c1'' ''m0'' 3)) = Rejected Unknown"
    and n: "\<not> write_ok ?w (writes ?w)"
    by (simp_all add: storage_scene_def)
  note t = handleUrlMessage_stops_at_exception
    [of ?st ?w ?m "''https://a.io''" EIO "[''https://b.io'']"
        "posted_by ''https://a.io'' ''alice'' ''c1'' ''m0'' 3" Unknown]
  from t scenario_lookup c r n
  have a: "fst (handleUrl ?st ?w ?m ''https://a.io'') = Thrown EIO" by blast
  with t have b: "handleUrlMessage ?st ?w ?m [''https://a.io'', ''https://b.io'']
      = ([Thrown EIO], snd (handleUrl ?st ?w ?m ''https://a.io''))" by blast
  have s: "snd (handleUrl ?st ?w ?m ''https://a.io'')
      = (\<lparr>urls = [(''c1'', [])], isInitialized = True\<rparr>, ?w\<lparr>writes := 1\<rparr>)"
    by (simp add: handleUrl_rejected [OF scenario_lookup c r] scenario_delete)
  have h: "handleUrlMessage ?st ?w ?m [''https://a.io'', ''https://b.io'']
      = ([Thrown EIO], \<lparr>urls = [(''c1'', [])], isInitialized = True\<rparr>, ?w\<lparr>writes := 1\<rparr>)"
    by (simp only: b s)
  show ?thesis by (intro conjI scenario_lookup c r n a h)
qed

section \<open>C8: save and load\<close>

text \<open>
  C8. What a store writes, a fresh store loads back. For \<open>UrlStorage\<close> (whose map has
  distinct keys): after a successful write of \<open>Object.fromEntries(this.urls)\<close>, \<open>init\<close> on a
  new store ends initialized with the same channels mapped to the same entry arrays (in
  the same order too when no channel id is an array index). For \<open>UrlStore\<close>: after a
  successful \<open>saveData\<close>, \<open>init\<close> on a new store yields exactly the saved array.
\<close>

theorem save_then_load_roundtrip:
  "(distinct (map fst (urls st)) \<longrightarrow> persist st w = (True, w') \<longrightarrow>
      MAIN_CHANNEL_ID ev = Some c \<longrightarrow> c \<noteq> [] \<longrightarrow>
        isInitialized (UrlStorage_init ev UrlStorage_new w')
        \<and> map_of (urls (UrlStorage_init ev UrlStorage_new w')) = map_of (urls st)
        \<and> ((\<forall>k \<in> set (map fst (urls st)). \<not> array_index k) \<longrightarrow>
             urls (UrlStorage_init ev UrlStorage_new w') = urls st))
   \<and> (saveData s sw = (Inr (), s', sw') \<longrightarrow>
        UrlStore_init UrlStore_new sw' = (Inr (), \<lparr>data = data s, initialized = True\<rparr>, sw'))"
proof -
  have a: "isInitialized (UrlStorage_init ev UrlStorage_new w')
        \<and> map_of (urls (UrlStorage_init ev UrlStorage_new w')) = map_of (urls st)
        \<and> ((\<forall>k \<in> set (map fst (urls st)). \<not> array_index k) \<longrightarrow>
             urls (UrlStorage_init ev UrlStorage_new w') = urls st)"
    if d: "distinct (map fst (urls st))" and p: "persist st w = (True, w')"
      and m: "MAIN_CHANNEL_ID ev = Some c" "c \<noteq> []"
  proof -
    from p have dk: "disk w' = Parsed (Object_fromEntries (urls st))"
      by (auto simp: persist_def writeFile_def split: if_splits)
    have "UrlStorage_init ev UrlStorage_new w'
            = \<lparr>urls = Object_fromEntries (urls st), isInitialized = True\<rparr>"
      using m dk distinct_Object_fromEntries by (rule UrlStorage_init_fresh)
    then show ?thesis
      using d by (simp add: map_of_Object_fromEntries Object_fromEntries_plain)
  qed
  have b: "UrlStore_init UrlStore_new sw' = (Inr (), \<lparr>data = data s, initialized = True\<rparr>, sw')"
    if "saveData s sw = (Inr (), s', sw')"
  proof -
    from that have "disk sw' = Parsed (data s)"
      by (auto simp: saveData_def writeFile_def split: if_splits)
    then show ?thesis
      by (simp add: UrlStore_init_def loadData_def readFile_def UrlStore_new_def)
  qed
  from a b show ?thesis by blast
qed

theorem save_then_load_roundtrip_witness:
  "distinct (map fst [(''10'', [entry_at ''https://a.io'' ''alice'' ''10'' 7]),
                      (''chan'', [entry_at ''https://b.io'' ''bob'' ''chan'' 8]),
                      (''2'', [entry_at ''https://c.io'' ''carol'' ''2'' 9])])
   \<and> persist \<lparr>urls = [(''10'', [entry_at ''https://a.io'' ''alice'' ''10'' 7]),
                        (''chan'', [entry_at ''https://b.io'' ''bob'' ''chan'' 8]),
                        (''2'', [entry_at ''https://c.io'' ''carol'' ''2'' 9])], isInitialized = True\<rparr>
        (storage_scene NoFile 10 True Resolved)
       = (True, (storage_scene
            (Parsed [(''2'', [entry_at ''https://c.io'' ''carol'' ''2'' 9]),
                     (''10'', [entry_at ''https://a.io'' ''alice'' ''10'' 7]),
                     (''chan'', [entry_at ''https://b.io'' ''bob'' ''chan'' 8])]) 10 True Resolved)
            \<lparr>writes := 1\<rparr>)
   \<and> MAIN_CHANNEL_ID config = Some ''c1''
   \<and> UrlStorage_init config UrlStorage_new
        ((storage_scene
            (Parsed [(''2'', [entry_at ''https://c.io'' ''carol'' ''2'' 9]),
                     (''10'', [entry_at ''https://a.io'' ''alice'' ''10'' 7]),
                     (''chan'', [entry_at ''https://b.io'' ''bob'' ''chan'' 8])]) 10 True Resolved)
            \<lparr>writes := 1\<rparr>)
       = \<lparr>urls = [(''2'', [entry_at ''https://c.io'' ''carol'' ''2'' 9]),
                  (''10'', [entry_at ''https://a.io'' ''alice'' ''10'' 7]),
                  (''chan'', [entry_at ''https://b.io'' ''bob'' ''chan'' 8])], isInitialized = True\<rparr>
   \<and> map_of [(''2'', [entry_at ''https://c.io'' ''carol'' ''2'' 9]),
              (''10'', [entry_at ''https://a.io'' ''alice'' ''10'' 7]),
              (''chan'', [entry_at ''https://b.io'' ''bob'' ''chan'' 8])]
       = map_of [(''10'', [entry_at ''https://a.io'' ''alice'' ''10'' 7]),
                 (''chan'', [entry_at ''https://b.io'' ''bob'' ''chan'' 8]),
                 (''2'', [entry_at ''https://c.io'' ''carol'' ''2'' 9])]
   \<and> saveData \<lparr>data = Urls [entry_at ''https://a.io'' ''alice'' ''c1'' 7], initialized = True\<rparr>
        (quiet_world NoFile 10)
       = (Inr (), \<lparr>data = Urls [entry_at ''https://a.io'' ''alice'' ''c1'' 7], initialized = True\<rparr>,
          (quiet_world (Parsed (Urls [entry_at ''https://a.io'' ''alice'' ''c1'' 7])) 10)\<lparr>writes := 1\<rparr>)
   \<and> UrlStore_init UrlStore_new
        ((quiet_world (Parsed (Urls [entry_at ''https://a.io'' ''alice'' ''c1'' 7])) 10)\<lparr>writes := 1\<rparr>)
       = (Inr (), \<lparr>data = Urls [entry_at ''https://a.io'' ''alice'' ''c1'' 7], initialized = True\<rparr>,
          (quiet_world (Parsed (Urls [entry_at ''https://a.io'' ''alice'' ''c1'' 7])) 10)\<lparr>writes := 1\<rparr>)"
proof -
  let ?m = "[(''10'', [entry_at ''https://a.io'' ''alice'' ''10'' 7]),
             (''chan'', [entry_at ''https://b.io'' ''bob'' ''chan'' 8]),
             (''2'', [entry_at ''https://c.io'' ''carol'' ''2'' 9])]"
  let ?o = "[(''2'', [entry_at ''https://c.io'' ''carol'' ''2'' 9]),
             (''10'', [entry_at ''https://a.io'' ''alice'' ''10'' 7]),
             (''chan'', [entry_at ''https://b.io'' ''bob'' ''chan'' 8])]"
  let ?st = "\<lparr>urls = ?m, isInitialized = True\<rparr>"
  let ?w' = "(storage_scene (Parsed ?o) 10 True Resolved)\<lparr>writes := 1\<rparr>"
  have d: "distinct (map fst ?m)" by simp
  have o: "Object_fromEntries ?m = ?o"
    by (simp add: Object_fromEntries_def obj_put_def array_index_def index_val_def digit_def)
  have p: "persist ?st (storage_scene NoFile 10 True Resolved) = (True, ?w')"
    by (simp add: persist_def writeFile_def o) (simp add: storage_scene_def)
  have m: "MAIN_CHANNEL_ID config = Some ''c1''" by (simp add: config_def)
  have i: "UrlStorage_init config UrlStorage_new ?w' = \<lparr>urls = ?o, isInitialized = True\<rparr>"
    by (simp add: UrlStorage_init_def UrlStorage_new_def config_def storage_scene_def)
  have d': "distinct (map fst (urls ?st))" by simp
  let ?s = "\<lparr>data = Urls [entry_at ''https://a.io'' ''alice'' ''c1'' 7], initialized = True\<rparr>"
  let ?sw' = "(quiet_world (Parsed (Urls [entry_at ''https://a.io'' ''alice'' ''c1'' 7])) 10)\<lparr>writes := 1\<rparr>"
  have sv: "saveData ?s (quiet_world NoFile 10) = (Inr (), ?s, ?sw')"
    by (simp add: saveData_def writeFile_def quiet_world_def)
  note r = save_then_load_roundtrip [of ?st "storage_scene NoFile 10 True Resolved" ?w' config "''c1''"
      ?s "quiet_world NoFile 10" ?s ?sw']
  from r sv have "UrlStore_init UrlStore_new ?sw' = (Inr (), \<lparr>data = data ?s, initialized = True\<rparr>, ?sw')"
    by blast
  then have ld: "UrlStore_init UrlStore_new ?sw' = (Inr (), ?s, ?sw')"
    by (simp only: UrlStore.select_convs)
  from r d' p m have e: "map_of (urls (UrlStorage_init config UrlStorage_new ?w')) = map_of (urls ?st)"
    by blast
  have f: "map_of ?o = map_of ?m"
    using e unfolding i by (simp only: UrlStorage.select_convs)
  show ?thesis by (intro conjI d p m i f sv ld)
qed

section \<open>C9: blocked posts\<close>

text \<open>
  C9. A post that ends in a blocking outcome leaves the history as it was. In \<open>processUrl\<close>,
  when the repost notice is the outcome, the file is unchanged and so is an initialized
  store (a store not yet initialized has only loaded the file). In
  \<open>handleUrlMessage\<close>, when the outcome for a URL is one of the three findings about a
  record whose message exists (another user's content, with its notice; the author's own
  in another channel, where building the notice throws the \<open>ReferenceError\<close>; the author's
  own in the same channel), the store and the file are unchanged; so they are after the
  three notices of the earlier \<open>handleUrlMessage\<close>.
\<close>

theorem blocked_outcomes_leave_store_unchanged:
  "(processUrl ev st w u m = (RepostBlocked emb d, st', w') \<longrightarrow> loaded_or_empty st \<longrightarrow>
      disk w' = disk w
      \<and> (initialized st \<longrightarrow> st' = st)
      \<and> (\<not> initialized st \<longrightarrow> disk w = Parsed (data st') \<and> initialized st'))
   \<and> (handleUrl sst sw m' u' = (r, sst', sw') \<longrightarrow>
        r = NotifiedOtherUser \<or> r = SameUserSameChannel \<or> r = Thrown ReferenceError \<longrightarrow>
          sst' = sst \<and> disk sw' = disk sw)
   \<and> (handleUrl_before bst bw m'' u'' = (b, bst', bw') \<longrightarrow>
        b = OtherAuthor \<or> b = OtherThread \<or> b = SameThread \<longrightarrow>
          bst' = bst \<and> disk bw' = disk bw)"
  using processUrl_initialized_blocked [of st ev w u m emb d st' w']
    processUrl_new_store_blocked [of st ev w u m emb d st' w']
    handleUrl_blocked_unchanged [of sst sw m' u' r sst' sw']
    handleUrl_before_blocked_unchanged [of bst bw m'' u'' b bst' bw']
  unfolding loaded_or_empty_def by blast

theorem blocked_outcomes_leave_store_unchanged_witness:
  "processUrl config
     \<lparr>data = Urls [entry_at ''https://a.io'' ''alice'' ''c1'' 0], initialized = True\<rparr>
     (quiet_world (Parsed (Urls [entry_at ''https://a.io'' ''alice'' ''c1'' 0])) (12 * hour))
     ''https://a.io'' (post ''alice'' ''c1'' ''see https://a.io'')
   = (RepostBlocked \<lparr>isSameUser = True, posted_hours_ago = 12, time_remaining = Some 12\<rparr> True,
      \<lparr>data = Urls [entry_at ''https://a.io'' ''alice'' ''c1'' 0], initialized = True\<rparr>,
      (quiet_world (Parsed (Urls [entry_at ''https://a.io'' ''alice'' ''c1'' 0])) (12 * hour))
        \<lparr>clock_reads := 1, discord_calls := 2\<rparr>)
   \<and> disk ((quiet_world (Parsed (Urls [entry_at ''https://a.io'' ''alice'' ''c1'' 0])) (12 * hour))
        \<lparr>clock_reads := 1, discord_calls := 2\<rparr>)
      = disk (quiet_world (Parsed (Urls [entry_at ''https://a.io'' ''alice'' ''c1'' 0])) (12 * hour))
   \<and> handleUrl \<lparr>urls = [(''c1'', [posted_by ''https://a.io'' ''alice'' ''c1'' ''m0'' 3])], isInitialized = True\<rparr>
        (storage_scene NoFile 9 True Resolved) (post ''bob'' ''c1'' ''see https://a.io'') ''https://a.io''
      = (NotifiedOtherUser,
         \<lparr>urls = [(''c1'', [posted_by ''https://a.io'' ''alice'' ''c1'' ''m0'' 3])], isInitialized = True\<rparr>,
         (storage_scene NoFile 9 True Resolved)\<lparr>discord_calls := 1\<rparr>)
   \<and> handleUrl \<lparr>urls = [(''c1'', [posted_by ''https://a.io'' ''alice'' ''c1'' ''m0'' 3])], isInitialized = True\<rparr>
        (storage_scene NoFile 9 True Resolved) (post ''alice'' ''c2'' ''see https://a.io'') ''https://a.io''
      = (Thrown ReferenceError,
         \<lparr>urls = [(''c1'', [posted_by ''https://a.io'' ''alice'' ''c1'' ''m0'' 3])], isInitialized = True\<rparr>,
         storage_scene NoFile 9 True Resolved)
   \<and> handleUrl_before \<lparr>urls = [(''c1'', [synced_by ''https://a.io'' ''alice'' 3])], isInitialized = True\<rparr>
        (storage_scene NoFile 9 True Resolved) (post ''bob'' ''c1'' ''see https://a.io'') ''https://a.io''
      = (OtherAuthor,
         \<lparr>urls = [(''c1'', [synced_by ''https://a.io'' ''alice'' 3])], isInitialized = True\<rparr>,
         (storage_scene NoFile 9 True Resolved)\<lparr>discord_calls := 1\<rparr>)
   \<and> disk ((storage_scene NoFile 9 True Resolved)\<lparr>discord_calls := 1\<rparr>)
      = disk (storage_scene NoFile 9 True Resolved)
   \<and> loaded_or_empty \<lparr>data = Urls [entry_at ''https://a.io'' ''alice'' ''c1'' 0], initialized = True\<rparr>
   \<and> \<not> initialized UrlStore_new \<and> loaded_or_empty UrlStore_new
   \<and> processUrl config UrlStore_new
        (quiet_world (Parsed (Urls [entry_at ''https://a.io'' ''alice'' ''c1'' 0])) (12 * hour))
        ''https://a.io'' (post ''alice'' ''c1'' ''see https://a.io'')
      = (RepostBlocked \<lparr>isSameUser = True, posted_hours_ago = 12, time_remaining = Some 12\<rparr> True,
         \<lparr>data = Urls [entry_at ''https://a.io'' ''alice'' ''c1'' 0], initialized = True\<rparr>,
         (quiet_world (Parsed (Urls [entry_at ''https://a.io'' ''alice'' ''c1'' 0])) (12 * hour))
           \<lparr>clock_reads := 1, discord_calls := 2\<rparr>)
   \<and> disk (quiet_world (Parsed (Urls [entry_at ''https://a.io'' ''alice'' ''c1'' 0])) (12 * hour))
      = Parsed (data \<lparr>data = Urls [entry_at ''https://a.io'' ''alice'' ''c1'' 0], initialized = True\<rparr>)"
proof -
  let ?st = "\<lparr>data = Urls [entry_at ''https://a.io'' ''alice'' ''c1'' 0], initialized = True\<rparr>"
  let ?w = "quiet_world (Parsed (Urls [entry_at ''https://a.io'' ''alice'' ''c1'' 0])) (12 * hour)"
  let ?sst = "\<lparr>urls = [(''c1'', [posted_by ''https://a.io'' ''alice'' ''c1'' ''m0'' 3])],
                isInitialized = True\<rparr>"
  let ?bst = "\<lparr>urls = [(''c1'', [synced_by ''https://a.io'' ''alice'' 3])], isInitialized = True\<rparr>"
  let ?sw = "storage_scene NoFile 9 True Resolved"
  have i: "initialized ?st" by simp
  note t = blocked_outcomes_leave_store_unchanged
    [of config ?st ?w "''https://a.io''" "post ''alice'' ''c1'' ''see https://a.io''"
        "\<lparr>isSameUser = True, posted_hours_ago = 12, time_remaining = Some 12\<rparr>" True
        ?st "?w\<lparr>clock_reads := 1, discord_calls := 2\<rparr>"
        ?sst ?sw "post ''bob'' ''c1'' ''see https://a.io''" "''https://a.io''" NotifiedOtherUser
        ?sst "?sw\<lparr>discord_calls := 1\<rparr>"
        ?bst ?sw "post ''bob'' ''c1'' ''see https://a.io''" "''https://a.io''" OtherAuthor
        ?bst "?sw\<lparr>discord_calls := 1\<rparr>"]
  have le: "loaded_or_empty ?st" by (simp add: loaded_or_empty_def)
  from t scenario_blocked le
  have a: "disk (?w\<lparr>clock_reads := 1, discord_calls := 2\<rparr>) = disk ?w"
    by blast
  from t scenario_other_user scenario_before_other_author
  have b: "disk (?sw\<lparr>discord_calls := 1\<rparr>) = disk ?sw"
    by blast
  have n: "\<not> initialized UrlStore_new" "loaded_or_empty UrlStore_new"
    by (simp_all add: UrlStore_new_def loaded_or_empty_def)
  have dk: "disk ?w = Parsed (Urls [entry_at ''https://a.io'' ''alice'' ''c1'' 0])"
    by (simp add: quiet_world_def)
  have lz: "processUrl config UrlStore_new ?w ''https://a.io'' (post ''alice'' ''c1'' ''see https://a.io'')
      = (RepostBlocked \<lparr>isSameUser = True, posted_hours_ago = 12, time_remaining = Some 12\<rparr> True,
         ?st, ?w\<lparr>clock_reads := 1, discord_calls := 2\<rparr>)"
    by (simp only: processUrl_lazy_load [OF n(1) dk] scenario_blocked)
  note t' = blocked_outcomes_leave_store_unchanged
    [of config UrlStore_new ?w "''https://a.io''" "post ''alice'' ''c1'' ''see https://a.io''"
        "\<lparr>isSameUser = True, posted_hours_ago = 12, time_remaining = Some 12\<rparr>" True
        ?st "?w\<lparr>clock_reads := 1, discord_calls := 2\<rparr>"]
  from t' lz n have c: "disk ?w = Parsed (data ?st)"
    by blast
  show ?thesis
    by (intro conjI scenario_blocked scenario_other_user scenario_other_channel
        scenario_before_other_author a b le n lz c)
qed

section \<open>C10: the earliest entry\<close>

text \<open>
  C10. Whenever \<open>UrlStore.findUrlHistory\<close> returns, its answer is taken from the store as it
  then is (unchanged if the store was initialized): absent exactly when no entry has the
  URL; otherwise an entry with that URL whose timestamp is the least among the entries
  with that URL, and, where several share that least timestamp, the one stored first.
\<close>

theorem UrlStore_findUrlHistory_earliest:
  assumes "UrlStore_findUrlHistory st w u = (Inr r, st', w')"
  shows "data st' = Urls (data_urls st')
         \<and> (case r of
            None \<Rightarrow> \<forall>e \<in> set (data_urls st'). url e \<noteq> u
          | Some e \<Rightarrow>
              e \<in> set (data_urls st') \<and> url e = u
              \<and> (\<forall>e' \<in> set (data_urls st'). url e' = u \<longrightarrow> timestamp e \<le> timestamp e')
              \<and> find (\<lambda>y. url y = u \<and> timestamp y = timestamp e) (data_urls st') = Some e)
         \<and> (initialized st \<longrightarrow> st' = st \<and> w' = w)"
proof -
  have r: "r = earliest u (data_urls st')" using findUrlHistory_Inr [OF assms] by simp
  have "initialized st \<longrightarrow> st' = st \<and> w' = w"
    using assms
    by (auto simp: UrlStore_findUrlHistory_def ensure_init_initialized split: store_data.splits)
  moreover have "case r of
            None \<Rightarrow> \<forall>e \<in> set (data_urls st'). url e \<noteq> u
          | Some e \<Rightarrow>
              e \<in> set (data_urls st') \<and> url e = u
              \<and> (\<forall>e' \<in> set (data_urls st'). url e' = u \<longrightarrow> timestamp e \<le> timestamp e')
              \<and> find (\<lambda>y. url y = u \<and> timestamp y = timestamp e) (data_urls st') = Some e"
  proof (cases r)
    case None
    then show ?thesis using r earliest_None [of u "data_urls st'"] by simp
  next
    case (Some e)
    then have "earliest u (data_urls st') = Some e" using r by simp
    then show ?thesis using Some earliest_Some earliest_first_stored by simp
  qed
  ultimately show ?thesis using findUrlHistory_Inr [OF assms] by simp
qed

theorem UrlStore_findUrlHistory_earliest_witness:
  "UrlStore_findUrlHistory
     \<lparr>data = Urls [entry_at ''https://a.io'' ''bob'' ''c1'' 50,
                   entry_at ''https://a.io'' ''alice'' ''c1'' 10,
                   entry_at ''https://b.io'' ''carol'' ''c1'' 5,
                   entry_at ''https://a.io'' ''dave'' ''c2'' 10], initialized = True\<rparr>
     (quiet_world NoFile 60) ''https://a.io''
   = (Inr (Some (entry_at ''https://a.io'' ''alice'' ''c1'' 10)),
      \<lparr>data = Urls [entry_at ''https://a.io'' ''bob'' ''c1'' 50,
                   entry_at ''https://a.io'' ''alice'' ''c1'' 10,
                   entry_at ''https://b.io'' ''carol'' ''c1'' 5,
                   entry_at ''https://a.io'' ''dave'' ''c2'' 10], initialized = True\<rparr>,
      quiet_world NoFile 60)
   \<and> find (\<lambda>y. url y = ''https://a.io'' \<and> timestamp y = 10)
         [entry_at ''https://a.io'' ''bob'' ''c1'' 50,
          entry_at ''https://a.io'' ''alice'' ''c1'' 10,
          entry_at ''https://b.io'' ''carol'' ''c1'' 5,
          entry_at ''https://a.io'' ''dave'' ''c2'' 10]
       = Some (entry_at ''https://a.io'' ''alice'' ''c1'' 10)"
proof -
  let ?st = "\<lparr>data = Urls [entry_at ''https://a.io'' ''bob'' ''c1'' 50,
                   entry_at ''https://a.io'' ''alice'' ''c1'' 10,
                   entry_at ''https://b.io'' ''carol'' ''c1'' 5,
                   entry_at ''https://a.io'' ''dave'' ''c2'' 10], initialized = True\<rparr>"
  have h: "UrlStore_findUrlHistory ?st (quiet_world NoFile 60) ''https://a.io''
             = (Inr (Some (entry_at ''https://a.io'' ''alice'' ''c1'' 10)), ?st, quiet_world NoFile 60)"
    by (simp add: UrlStore_findUrlHistory_def ensure_init_initialized earliest_def
        first_elem_def entry_at_def)
  show ?thesis
    using h UrlStore_findUrlHistory_earliest [OF h] by (simp add: data_urls_def entry_at_def)
qed

end
